theory Spec2Isabelle
  imports Main "HOL-Library.AList"
begin

section \<open>Data model\<close>

text \<open>
  The engine of macscan keeps its state in a SQLite database (tables created in
  \<^verbatim>\<open>database/init.js\<close>) and changes it with single SQL statements, each committed on
  its own. A table is a list of rows in insertion order, a row is a record. Since several
  tables share column names, the columns of a table carry a prefix: \<open>kd_\<close> for
  \<^verbatim>\<open>known_devices\<close>, \<open>dh_\<close> for \<^verbatim>\<open>device_history\<close>, \<open>n_\<close> for
  \<^verbatim>\<open>notifications\<close>, \<open>j_\<close> for \<^verbatim>\<open>jobs\<close>, \<open>h_\<close> for \<^verbatim>\<open>ssh_hosts\<close>,
  \<open>wl_\<close> for \<^verbatim>\<open>job_whitelist\<close> and \<open>jr_\<close> for \<^verbatim>\<open>job_runs\<close>. The objects the
  parser emits keep the plain names.

  The surrogate \<^verbatim>\<open>id\<close> columns of \<^verbatim>\<open>known_devices\<close>, \<^verbatim>\<open>device_history\<close> and
  \<^verbatim>\<open>notifications\<close> hold a fresh \<^verbatim>\<open>uuidv4()\<close> that the engine never reads; they are
  left out. The id of a job run is read back and is modelled. Columns that the engine
  neither reads nor writes (\<^verbatim>\<open>schedule\<close>, \<^verbatim>\<open>created_at\<close>, \<^verbatim>\<open>next_run\<close>,
  \<^verbatim>\<open>output\<close>, ...) are left out as well.

  A timestamp is a number of seconds: \<^verbatim>\<open>CURRENT_TIMESTAMP\<close> and \<^verbatim>\<open>datetime\<close> have a
  resolution of one second, and their text form orders as the numbers do. One call of
  a function reads the clock once (the parameter \<open>now\<close>). Strings are lists of 8-bit
  characters. BOOLEAN columns hold integers, read by JavaScript's truthiness.
\<close>

type_synonym timestamp = int

datatype error = JsError string | SqliteError string

definition truthy :: "int \<Rightarrow> bool" where
  "truthy n = (n \<noteq> 0)"

text \<open>
  A VLAN is what \<^verbatim>\<open>parseInt\<close> returns, a JavaScript number, and is stored as it is.
  JavaScript holds a number in a double: an integer of magnitude up to \<open>2^53\<close> is held
  as itself (\<open>Exact\<close>); a larger one is held as a double near it, or as
  \<^verbatim>\<open>Infinity\<close> when it is too large for a double. \<open>Rounded m\<close> stands for the
  number that JavaScript makes of such an integer \<open>m\<close>; the model does not say which
  double that is. \<open>NaN\<close> is \<^verbatim>\<open>NaN\<close>.
\<close>

datatype number = NaN | Exact int | Rounded int

text \<open>The object pushed by \<^verbatim>\<open>parseMacAddressTable\<close> (an Observation of the spec).\<close>

record device =
  mac_address :: string
  vlan_id :: number
  dtype :: string
  interface_name :: string
  host_name :: string
  detected_at :: string

record known_device =
  kd_job_id :: string
  kd_mac_address :: string
  kd_host_name :: string
  kd_interface_name :: string
  kd_vlan_id :: number
  kd_whitelisted :: int
  kd_first_seen :: timestamp
  kd_last_seen :: timestamp
  kd_status :: string

record history_entry =
  dh_job_id :: string
  dh_mac_address :: string
  dh_host_name :: string
  dh_interface_name :: string
  dh_vlan_id :: number
  dh_detected_at :: timestamp

record notification =
  n_job_id :: string
  n_job_name :: string
  n_type :: string
  n_message :: string
  n_mac_address :: string
  n_host_name :: string
  n_interface_name :: string

record job =
  j_id :: string
  j_name :: string
  j_vlan_id :: "int option"
  j_notifications_enabled :: int
  j_notify_new_macs :: int
  j_notify_unauthorized_macs :: int
  j_notify_ip_changes :: int
  j_retention_policy :: string
  j_retention_days :: int
  j_status :: string
  j_updated_at :: timestamp
  j_last_run :: "timestamp option"

record ssh_host =
  h_job_id :: string
  h_name :: string
  h_host :: string
  h_port :: int
  h_username :: string
  h_password_encrypted :: string
  h_enabled :: int

record whitelist_entry =
  wl_job_id :: string
  wl_mac_address :: string

text \<open>
  A line of \<^verbatim>\<open>debugInfo\<close>. The source formats each line as text with a clock reading
  in front; the model keeps what the line says.
\<close>

datatype debug_line =
  StartingScan string string int
| ScannedOk string nat
| ScanFailed string string
| ScanError string string

record job_run =
  jr_id :: string
  jr_job_id :: string
  jr_status :: string
  jr_hosts_scanned :: nat
  jr_devices_found :: nat
  jr_new_devices :: nat
  jr_warnings :: nat
  jr_started_at :: timestamp
  jr_finished_at :: "timestamp option"
  jr_duration :: "int option"
  jr_error_message :: "string option"
  jr_debug_info :: "debug_line list option"

record database =
  jobs :: "job list"
  ssh_hosts :: "ssh_host list"
  job_whitelist :: "whitelist_entry list"
  job_runs :: "job_run list"
  known_devices :: "known_device list"
  notifications :: "notification list"
  device_history :: "history_entry list"

section \<open>The statements of \<^verbatim>\<open>_processDevices\<close>\<close>

text \<open>
  The key of the in-memory map: the template string \<^verbatim>\<open>`${mac_address}:${host_name}`\<close>.
\<close>

definition deviceKey :: "string \<Rightarrow> string \<Rightarrow> string" where
  "deviceKey mac host = mac @ '':'' @ host"

text \<open>
  \<^verbatim>\<open>knownDevices\<close> is a JavaScript \<^verbatim>\<open>Map\<close>: an association list in insertion order,
  \<^verbatim>\<open>set\<close> replacing the value of a present key in place (\<^const>\<open>AList.update\<close>),
  \<^verbatim>\<open>get\<close> as \<^const>\<open>map_of\<close>, \<^verbatim>\<open>delete\<close> as \<^const>\<open>AList.delete\<close>.
\<close>

definition loadKnownDevices :: "string \<Rightarrow> database \<Rightarrow> (string \<times> known_device) list" where
  "loadKnownDevices jobId db =
     foldl (\<lambda>knownDevices device.
              AList.update (deviceKey (kd_mac_address device) (kd_host_name device)) device knownDevices)
           [] (filter (\<lambda>r. kd_job_id r = jobId) (known_devices db))"

text \<open>
  \<^verbatim>\<open>WHERE job_id = ? AND mac_address = ? AND host_name = ?\<close>
\<close>

definition sameDevice :: "string \<Rightarrow> string \<Rightarrow> string \<Rightarrow> known_device \<Rightarrow> bool" where
  "sameDevice jobId mac host r =
     (kd_job_id r = jobId \<and> kd_mac_address r = mac \<and> kd_host_name r = host)"

text \<open>
  \<^verbatim>\<open>INSERT INTO known_devices\<close>: the table is declared
  \<^verbatim>\<open>UNIQUE(job_id, mac_address, host_name)\<close>, so the statement throws when a row with
  these three values is there, and changes nothing then.
\<close>

definition uniqueFailed :: string where
  "uniqueFailed = ''UNIQUE constraint failed: known_devices.job_id, known_devices.mac_address, known_devices.host_name''"

definition insertKnownDevice :: "known_device \<Rightarrow> database \<Rightarrow> error + database" where
  "insertKnownDevice row db =
     (if list_ex (sameDevice (kd_job_id row) (kd_mac_address row) (kd_host_name row)) (known_devices db)
      then Inl (SqliteError uniqueFailed)
      else Inr (db\<lparr>known_devices := known_devices db @ [row]\<rparr>))"

text \<open>
  \<^verbatim>\<open>UPDATE known_devices SET interface_name = ?, vlan_id = ?, last_seen = CURRENT_TIMESTAMP,
  status = 'active' WHERE job_id = ? AND mac_address = ? AND host_name = ?\<close>
\<close>

definition touchRow :: "device \<Rightarrow> timestamp \<Rightarrow> known_device \<Rightarrow> known_device" where
  "touchRow device now r =
     r\<lparr>kd_interface_name := interface_name device, kd_vlan_id := vlan_id device,
       kd_last_seen := now, kd_status := ''active''\<rparr>"

definition updateKnownDevice :: "string \<Rightarrow> device \<Rightarrow> timestamp \<Rightarrow> database \<Rightarrow> database" where
  "updateKnownDevice jobId device now db =
     db\<lparr>known_devices :=
          map (\<lambda>r. if sameDevice jobId (mac_address device) (host_name device) r
                   then touchRow device now r else r)
              (known_devices db)\<rparr>"

text \<open>
  \<^verbatim>\<open>UPDATE known_devices SET status = 'inactive' WHERE job_id = ? AND mac_address = ? AND
  host_name = ?\<close>
\<close>

definition updateInactive :: "string \<Rightarrow> string \<Rightarrow> string \<Rightarrow> database \<Rightarrow> database" where
  "updateInactive jobId mac host db =
     db\<lparr>known_devices :=
          map (\<lambda>r. if sameDevice jobId mac host r then r\<lparr>kd_status := ''inactive''\<rparr> else r)
              (known_devices db)\<rparr>"

text \<open>\<^verbatim>\<open>INSERT INTO device_history\<close>\<close>

definition insertHistory :: "string \<Rightarrow> device \<Rightarrow> timestamp \<Rightarrow> database \<Rightarrow> database" where
  "insertHistory jobId device now db =
     db\<lparr>device_history := device_history db @
          [\<lparr>dh_job_id = jobId, dh_mac_address = mac_address device,
            dh_host_name = host_name device, dh_interface_name = interface_name device,
            dh_vlan_id = vlan_id device, dh_detected_at = now\<rparr>]\<rparr>"

text \<open>
  Modelled from the spec: \<^verbatim>\<open>NotificationService.createNotification\<close> is imported from
  \<^verbatim>\<open>./NotificationService.js\<close>, which is not among the sources. The spec has
  notifications as records that are only ever appended, so the call appends the record
  it is given and does not fail.
\<close>

definition createNotification :: "notification \<Rightarrow> database \<Rightarrow> database" where
  "createNotification n db = db\<lparr>notifications := notifications db @ [n]\<rparr>"

section \<open>\<^verbatim>\<open>_applyRetentionPolicy\<close>\<close>

text \<open>
  The policy is the text of the column \<^verbatim>\<open>retention_policy\<close>. Under \<^verbatim>\<open>'days'\<close> the
  cutoff is \<^verbatim>\<open>datetime('now', '-' || retention_days || ' days')\<close>; a negative number of
  days gives the modifier \<^verbatim>\<open>'--N days'\<close>, which SQLite rejects: the cutoff is NULL
  and the \<^verbatim>\<open>DELETE\<close> matches no row.
\<close>

definition applyRetentionPolicy :: "string \<Rightarrow> job \<Rightarrow> timestamp \<Rightarrow> database \<Rightarrow> database" where
  "applyRetentionPolicy jobId job now db =
     (if j_retention_policy job = ''forever'' then db
      else if j_retention_policy job = ''remove'' then
        db\<lparr>known_devices :=
             filter (\<lambda>r. \<not> (kd_job_id r = jobId \<and> kd_status r = ''inactive'')) (known_devices db)\<rparr>
      else if j_retention_policy job = ''days'' then
        (if j_retention_days job < 0 then db
         else db\<lparr>known_devices :=
                  filter (\<lambda>r. \<not> (kd_job_id r = jobId \<and> kd_status r = ''inactive'' \<and>
                                  kd_last_seen r < now - j_retention_days job * 86400))
                         (known_devices db)\<rparr>)
      else db)"

section \<open>\<^verbatim>\<open>_processDevices\<close>\<close>

text \<open>
  The locals that the loop over \<^verbatim>\<open>devices\<close> changes: the database, the map
  \<^verbatim>\<open>knownDevices\<close> and the two counters.
\<close>

record loop_state =
  st_db :: database
  st_knownDevices :: "(string \<times> known_device) list"
  st_newDevices :: nat
  st_warnings :: nat

text \<open>
  The values of the \<^verbatim>\<open>INSERT INTO known_devices\<close>: the columns of the device, the
  flag \<^verbatim>\<open>isWhitelisted ? 1 : 0\<close>, both timestamps \<^verbatim>\<open>CURRENT_TIMESTAMP\<close>, status
  \<^verbatim>\<open>'active'\<close>.
\<close>

definition newKnownDevice :: "string \<Rightarrow> device \<Rightarrow> bool \<Rightarrow> timestamp \<Rightarrow> known_device" where
  "newKnownDevice jobId device isWhitelisted now =
     \<lparr>kd_job_id = jobId, kd_mac_address = mac_address device,
      kd_host_name = host_name device, kd_interface_name = interface_name device,
      kd_vlan_id = vlan_id device, kd_whitelisted = (if isWhitelisted then 1 else 0),
      kd_first_seen = now, kd_last_seen = now, kd_status = ''active''\<rparr>"

text \<open>
  The body of the loop for one \<^verbatim>\<open>device\<close>. A statement that throws ends the function;
  the error comes with the database as the statements before it left it, since nothing
  is rolled back.
\<close>

definition processDevice ::
  "string \<Rightarrow> string set \<Rightarrow> job \<Rightarrow> timestamp \<Rightarrow> device \<Rightarrow> loop_state \<Rightarrow> (error \<times> database) + loop_state" where
  "processDevice jobId whitelist job now device s =
     (let key = deviceKey (mac_address device) (host_name device);
          isWhitelisted = (mac_address device \<in> whitelist)
      in case map_of (st_knownDevices s) key of
           None \<Rightarrow>
             (case insertKnownDevice (newKnownDevice jobId device isWhitelisted now) (st_db s) of
                Inl e \<Rightarrow> Inl (e, st_db s)
              | Inr db1 \<Rightarrow>
                  (let (db2, w) =
                         (if truthy (j_notifications_enabled job) then
                            (if isWhitelisted \<and> truthy (j_notify_new_macs job) then
                               (createNotification
                                  \<lparr>n_job_id = jobId, n_job_name = j_name job, n_type = ''information'',
                                   n_message = ''New authorized device discovered: '' @ mac_address device
                                                 @ '' on '' @ host_name device,
                                   n_mac_address = mac_address device, n_host_name = host_name device,
                                   n_interface_name = interface_name device\<rparr> db1,
                                st_warnings s)
                             else if \<not> isWhitelisted \<and> truthy (j_notify_unauthorized_macs job) then
                               (createNotification
                                  \<lparr>n_job_id = jobId, n_job_name = j_name job, n_type = ''warning'',
                                   n_message = ''Unauthorized device detected: '' @ mac_address device
                                                 @ '' on '' @ host_name device,
                                   n_mac_address = mac_address device, n_host_name = host_name device,
                                   n_interface_name = interface_name device\<rparr> db1,
                                st_warnings s + 1)
                             else (db1, st_warnings s))
                          else (db1, st_warnings s))
                   in Inr \<lparr>st_db = insertHistory jobId device now db2,
                           st_knownDevices = st_knownDevices s,
                           st_newDevices = st_newDevices s + 1,
                           st_warnings = w\<rparr>))
         | Some existingDevice \<Rightarrow>
             (let db1 =
                    (if kd_interface_name existingDevice \<noteq> interface_name device
                        \<and> truthy (j_notifications_enabled job) \<and> truthy (j_notify_ip_changes job)
                     then createNotification
                            \<lparr>n_job_id = jobId, n_job_name = j_name job, n_type = ''information'',
                             n_message = ''Device '' @ mac_address device @ '' moved from ''
                                           @ kd_interface_name existingDevice @ '' to ''
                                           @ interface_name device @ '' on '' @ host_name device,
                             n_mac_address = mac_address device, n_host_name = host_name device,
                             n_interface_name = interface_name device\<rparr> (st_db s)
                     else st_db s);
                  db2 = updateKnownDevice jobId device now db1
              in Inr \<lparr>st_db = insertHistory jobId device now db2,
                      st_knownDevices = AList.delete key (st_knownDevices s),
                      st_newDevices = st_newDevices s,
                      st_warnings = st_warnings s\<rparr>))"

text \<open>\<^verbatim>\<open>for (const device of devices)\<close>\<close>

fun processLoop ::
  "string \<Rightarrow> string set \<Rightarrow> job \<Rightarrow> timestamp \<Rightarrow> device list \<Rightarrow> loop_state \<Rightarrow> (error \<times> database) + loop_state" where
  "processLoop jobId whitelist job now [] s = Inr s"
| "processLoop jobId whitelist job now (device # devices) s =
     (case processDevice jobId whitelist job now device s of
        Inl e \<Rightarrow> Inl e
      | Inr s' \<Rightarrow> processLoop jobId whitelist job now devices s')"

text \<open>The locals when the loop starts.\<close>

definition initialState :: "string \<Rightarrow> database \<Rightarrow> loop_state" where
  "initialState jobId db =
     \<lparr>st_db = db, st_knownDevices = loadKnownDevices jobId db,
      st_newDevices = 0, st_warnings = 0\<rparr>"

text \<open>
  \<^verbatim>\<open>for (const [deviceKey, device] of knownDevices)\<close>: what is left in the map is
  marked inactive, by the key columns of the row the map holds.
\<close>

definition markNotSeen :: "string \<Rightarrow> (string \<times> known_device) list \<Rightarrow> database \<Rightarrow> database" where
  "markNotSeen jobId knownDevices db =
     foldl (\<lambda>db' (deviceKey, device).
              updateInactive jobId (kd_mac_address device) (kd_host_name device) db')
           db knownDevices"

record process_result =
  devicesFound :: nat
  newDevices :: nat
  warnings :: nat

text \<open>
  \<open>reconcile\<close> is \<^verbatim>\<open>_processDevices\<close> up to the call of \<^verbatim>\<open>_applyRetentionPolicy\<close>
  (the Reconciler of the spec, with the counters that the function returns in the end);
  \<open>processDevices\<close> is the whole function. Both give the outcome and the database as
  it is left.
\<close>

definition reconcile ::
  "string \<Rightarrow> device list \<Rightarrow> string set \<Rightarrow> job \<Rightarrow> timestamp \<Rightarrow> database
     \<Rightarrow> (error + process_result) \<times> database" where
  "reconcile jobId devices whitelist job now db =
     (case processLoop jobId whitelist job now devices (initialState jobId db) of
        Inl (e, db') \<Rightarrow> (Inl e, db')
      | Inr s \<Rightarrow>
          (Inr \<lparr>devicesFound = length devices, newDevices = st_newDevices s,
                warnings = st_warnings s\<rparr>,
           markNotSeen jobId (st_knownDevices s) (st_db s)))"

definition processDevices ::
  "string \<Rightarrow> device list \<Rightarrow> string set \<Rightarrow> job \<Rightarrow> timestamp \<Rightarrow> database
     \<Rightarrow> (error + process_result) \<times> database" where
  "processDevices jobId devices whitelist job now db =
     (case reconcile jobId devices whitelist job now db of
        (Inl e, db') \<Rightarrow> (Inl e, db')
      | (Inr result, db') \<Rightarrow> (Inr result, applyRetentionPolicy jobId job now db'))"

section \<open>The table parser\<close>

text \<open>
  \<^verbatim>\<open>SSHService.parseMacAddressTable\<close> and \<^verbatim>\<open>isValidMAC\<close>. The functions of
  JavaScript's \<^verbatim>\<open>String\<close> that they call are written out on 8-bit characters:
  white space is what \<^verbatim>\<open>trim\<close> and the class \<^verbatim>\<open>\s\<close> take in this range (TAB, LF,
  VT, FF, CR, SP, NBSP).
\<close>

definition isWhiteSpace :: "char \<Rightarrow> bool" where
  "isWhiteSpace c = (of_char c \<in> {9, 10, 11, 12, 13, 32, 160 :: nat})"

definition trim :: "string \<Rightarrow> string" where
  "trim s = rev (dropWhile isWhiteSpace (rev (dropWhile isWhiteSpace s)))"

text \<open>\<^verbatim>\<open>output.split('\n')\<close>\<close>

fun splitLines :: "string \<Rightarrow> string list" where
  "splitLines [] = [[]]"
| "splitLines (c # cs) =
     (if c = CHR 0x0A then [] # splitLines cs
      else (case splitLines cs of [] \<Rightarrow> [[c]] | l # ls \<Rightarrow> (c # l) # ls))"

text \<open>
  \<^verbatim>\<open>s.split(/\s+/)\<close>: a run of white space separates two parts; a run at the start or
  the end of the text leaves an empty part there.
\<close>

function splitWhiteSpace :: "string \<Rightarrow> string list" where
  "splitWhiteSpace [] = [[]]"
| "splitWhiteSpace (c # cs) =
     (if isWhiteSpace c then [] # splitWhiteSpace (dropWhile isWhiteSpace cs)
      else (case splitWhiteSpace cs of [] \<Rightarrow> [[c]] | t # ts \<Rightarrow> (c # t) # ts))"
  by pat_completeness auto
termination
  by (relation "measure length") (auto simp: length_dropWhile_le less_Suc_eq_le)

definition startsWith :: "string \<Rightarrow> string \<Rightarrow> bool" where
  "startsWith s p = (take (length p) s = p)"

fun includesText :: "string \<Rightarrow> string \<Rightarrow> bool" where
  "includesText [] sub = (sub = [])"
| "includesText (c # cs) sub = (startsWith (c # cs) sub \<or> includesText cs sub)"

text \<open>\<^verbatim>\<open>parts.join(' ')\<close>\<close>

fun join :: "string \<Rightarrow> string list \<Rightarrow> string" where
  "join sep [] = []"
| "join sep [p] = p"
| "join sep (p # q # ps) = p @ sep @ join sep (q # ps)"

text \<open>
  \<^verbatim>\<open>toLowerCase\<close> on 8-bit characters: the letters A to Z, and the capital letters of
  Latin-1 (0xC0 to 0xDE without the multiplication sign 0xD7), move up by 32.
\<close>

definition lowerChar :: "char \<Rightarrow> char" where
  "lowerChar c =
     (let n = of_char c :: nat
      in if (65 \<le> n \<and> n \<le> 90) \<or> (192 \<le> n \<and> n \<le> 222 \<and> n \<noteq> 215)
         then char_of (n + 32) else c)"

definition toLowerCase :: "string \<Rightarrow> string" where
  "toLowerCase s = map lowerChar s"

text \<open>
  \<^verbatim>\<open>parseInt(s, 10)\<close>: leading white space is skipped, one sign is taken, then the
  longest run of decimal digits; with no digit the result is \<^verbatim>\<open>NaN\<close>. Otherwise it
  is the number of the signed value of the digits: the value itself up to \<open>2^53 =
  9007199254740992\<close>, a rounded number beyond.
\<close>

definition isDigit :: "char \<Rightarrow> bool" where
  "isDigit c = (48 \<le> (of_char c :: nat) \<and> (of_char c :: nat) \<le> 57)"

definition digitsValue :: "string \<Rightarrow> int" where
  "digitsValue ds = foldl (\<lambda>a c. 10 * a + (int (of_char c) - 48)) 0 ds"

definition parseInt :: "string \<Rightarrow> number" where
  "parseInt s =
     (let s1 = dropWhile isWhiteSpace s;
          (sign, s2) = (case s1 of
                          [] \<Rightarrow> (1, [])
                        | c # r \<Rightarrow> if c = CHR ''-'' then (- 1, r)
                                   else if c = CHR ''+'' then (1, r) else (1, s1));
          ds = takeWhile isDigit s2
      in if ds = [] then NaN
         else if digitsValue ds \<le> 9007199254740992 then Exact (sign * digitsValue ds)
         else Rounded (sign * digitsValue ds))"

text \<open>
  \<^verbatim>\<open>/^([0-9a-f]{2}[:-]){5}([0-9a-f]{2})$/i\<close>: five groups of two hexadecimal digits
  and a separator, then two hexadecimal digits and the end of the text. With the flag
  \<^verbatim>\<open>i\<close> a digit is one of 0 to 9 (codes 48 to 57), a to f (97 to 102) or A to F
  (65 to 70); a separator is the colon (58) or the hyphen (45).
\<close>

definition isHexDigit :: "char \<Rightarrow> bool" where
  "isHexDigit c =
     (let n = of_char c :: nat
      in (48 \<le> n \<and> n \<le> 57) \<or> (97 \<le> n \<and> n \<le> 102) \<or> (65 \<le> n \<and> n \<le> 70))"

definition isSeparator :: "char \<Rightarrow> bool" where
  "isSeparator c = (of_char c = (58 :: nat) \<or> of_char c = (45 :: nat))"

fun macGroups :: "nat \<Rightarrow> string \<Rightarrow> bool" where
  "macGroups 0 s = (case s of [a, b] \<Rightarrow> isHexDigit a \<and> isHexDigit b | _ \<Rightarrow> False)"
| "macGroups (Suc n) s =
     (case s of a # b # c # rest \<Rightarrow> isHexDigit a \<and> isHexDigit b \<and> isSeparator c \<and> macGroups n rest
              | _ \<Rightarrow> False)"

definition isValidMAC :: "string \<Rightarrow> bool" where
  "isValidMAC mac = macGroups 5 mac"

text \<open>
  The body of the loop over the lines: \<^const>\<open>None\<close> where the source goes on to the next
  line without a push. \<open>detectedAt\<close> is the text of \<^verbatim>\<open>new Date().toISOString()\<close>.
\<close>

definition parseLine :: "string \<Rightarrow> string \<Rightarrow> string \<Rightarrow> device option" where
  "parseLine hostName detectedAt line =
     (let trimmedLine = trim line
      in if trimmedLine = [] \<or> includesText trimmedLine ''VlanId'' \<or> includesText trimmedLine ''---''
            \<or> includesText trimmedLine ''--more--'' \<or> includesText trimmedLine ''Codes:''
            \<or> startsWith trimmedLine ''pv ''
         then None
         else (case splitWhiteSpace trimmedLine of
                 p0 # p1 # p2 # p3 # rest \<Rightarrow>
                   (let vlanId = parseInt p0;
                        macAddress = toLowerCase p1;
                        interfaceName = join '' '' (p3 # rest)
                    in if isValidMAC macAddress \<and> vlanId \<noteq> NaN
                       then Some \<lparr>mac_address = macAddress, vlan_id = vlanId, dtype = p2,
                                  interface_name = interfaceName, host_name = hostName,
                                  detected_at = detectedAt\<rparr>
                       else None)
               | _ \<Rightarrow> None))"

fun parseLines :: "string \<Rightarrow> string \<Rightarrow> string list \<Rightarrow> device list" where
  "parseLines hostName detectedAt [] = []"
| "parseLines hostName detectedAt (line # lines) =
     (case parseLine hostName detectedAt line of
        None \<Rightarrow> parseLines hostName detectedAt lines
      | Some device \<Rightarrow> device # parseLines hostName detectedAt lines)"

definition parseMacAddressTable :: "string \<Rightarrow> string \<Rightarrow> string \<Rightarrow> device list" where
  "parseMacAddressTable output hostName detectedAt =
     parseLines hostName detectedAt (splitLines output)"

text \<open>
  \<^verbatim>\<open>getMacAddressTable\<close> runs the command through \<^verbatim>\<open>executeCommand\<close> (the SSH
  transport, outside the engine) and parses what comes back.
\<close>

datatype command_result = CommandOk string | CommandFailed string

datatype scan_result = ScanSuccess "device list" | ScanFailure string

definition getMacAddressTable :: "command_result \<Rightarrow> string \<Rightarrow> string \<Rightarrow> scan_result" where
  "getMacAddressTable result host detectedAt =
     (case result of
        CommandFailed e \<Rightarrow> ScanFailure e
      | CommandOk output \<Rightarrow> ScanSuccess (parseMacAddressTable output host detectedAt))"

section \<open>\<^verbatim>\<open>runJob\<close>\<close>

text \<open>
  What \<^verbatim>\<open>runJob\<close> takes from outside the engine: for each host either an exception
  (from \<^verbatim>\<open>CryptoService.decrypt\<close> or from the SSH call) or the result of
  \<^verbatim>\<open>executeCommand\<close>; the id that \<^verbatim>\<open>uuidv4()\<close> returns for the run; the clock
  (\<^verbatim>\<open>CURRENT_TIMESTAMP\<close> in seconds, \<^verbatim>\<open>Date.now()\<close> in milliseconds at the start and at
  the end, and the text of \<^verbatim>\<open>toISOString()\<close>).
\<close>

datatype host_outcome = Threw string | Ran command_result

record environment =
  env_ssh :: "ssh_host \<Rightarrow> host_outcome"
  env_uuid :: string
  env_now :: timestamp
  env_startTime :: int
  env_endTime :: int
  env_iso :: string

fun message :: "error \<Rightarrow> string" where
  "message (JsError m) = m"
| "message (SqliteError m) = m"

text \<open>
  \<^verbatim>\<open>for (const host of sshHosts)\<close>, with the locals \<^verbatim>\<open>allDevices\<close>,
  \<^verbatim>\<open>debugInfo\<close> and \<^verbatim>\<open>successfulHosts\<close>. The devices of a host carry
  \<^verbatim>\<open>hostConfig.host\<close> as their host name.
\<close>

fun scanHosts ::
  "environment \<Rightarrow> ssh_host list \<Rightarrow> device list \<times> debug_line list \<times> nat
     \<Rightarrow> device list \<times> debug_line list \<times> nat" where
  "scanHosts env [] acc = acc"
| "scanHosts env (host # hosts) (allDevices, debugInfo, successfulHosts) =
     (let debugInfo1 = debugInfo @ [StartingScan (h_name host) (h_host host) (h_port host)]
      in case env_ssh env host of
           Threw m \<Rightarrow>
             scanHosts env hosts
               (allDevices, debugInfo1 @ [ScanError (h_name host) m], successfulHosts)
         | Ran result \<Rightarrow>
             (case getMacAddressTable result (h_host host) (env_iso env) of
                ScanSuccess devices \<Rightarrow>
                  scanHosts env hosts
                    (allDevices @ devices,
                     debugInfo1 @ [ScannedOk (h_name host) (length devices)],
                     successfulHosts + 1)
              | ScanFailure e \<Rightarrow>
                  scanHosts env hosts
                    (allDevices, debugInfo1 @ [ScanFailed (h_name host) e], successfulHosts)))"

text \<open>
  \<^verbatim>\<open>INSERT INTO job_runs (id, job_id, status, hosts_scanned, started_at)\<close>; \<^verbatim>\<open>id\<close> is
  the primary key of the table.
\<close>

definition createRun :: "string \<Rightarrow> string \<Rightarrow> nat \<Rightarrow> timestamp \<Rightarrow> database \<Rightarrow> error + database" where
  "createRun runId jobId hostsScanned now db =
     (if list_ex (\<lambda>r. jr_id r = runId) (job_runs db)
      then Inl (SqliteError ''UNIQUE constraint failed: job_runs.id'')
      else Inr (db\<lparr>job_runs := job_runs db @
                  [\<lparr>jr_id = runId, jr_job_id = jobId, jr_status = ''running'',
                    jr_hosts_scanned = hostsScanned, jr_devices_found = 0, jr_new_devices = 0,
                    jr_warnings = 0, jr_started_at = now, jr_finished_at = None,
                    jr_duration = None, jr_error_message = None, jr_debug_info = None\<rparr>]\<rparr>))"

text \<open>
  \<^verbatim>\<open>UPDATE jobs SET status = ?, last_run = CURRENT_TIMESTAMP WHERE id = ?\<close> and
  \<^verbatim>\<open>UPDATE jobs SET status = ? WHERE id = ?\<close>; the trigger
  \<^verbatim>\<open>update_jobs_timestamp\<close> stamps \<^verbatim>\<open>updated_at\<close> after each.
\<close>

definition updateJob :: "string \<Rightarrow> string \<Rightarrow> timestamp \<Rightarrow> database \<Rightarrow> database" where
  "updateJob status jobId now db =
     db\<lparr>jobs := map (\<lambda>j. if j_id j = jobId
                           then j\<lparr>j_status := status, j_last_run := Some now, j_updated_at := now\<rparr>
                           else j) (jobs db)\<rparr>"

definition resetJob :: "string \<Rightarrow> string \<Rightarrow> timestamp \<Rightarrow> database \<Rightarrow> database" where
  "resetJob status jobId now db =
     db\<lparr>jobs := map (\<lambda>j. if j_id j = jobId
                           then j\<lparr>j_status := status, j_updated_at := now\<rparr>
                           else j) (jobs db)\<rparr>"

text \<open>
  \<^verbatim>\<open>UPDATE job_runs SET status = 'completed', ... WHERE id = ?\<close> and
  \<^verbatim>\<open>UPDATE job_runs SET status = 'failed', ... WHERE id = ?\<close>
\<close>

definition completeRun ::
  "string \<Rightarrow> int \<Rightarrow> process_result \<Rightarrow> debug_line list \<Rightarrow> timestamp \<Rightarrow> database \<Rightarrow> database" where
  "completeRun runId duration result debugInfo now db =
     db\<lparr>job_runs := map (\<lambda>r. if jr_id r = runId
                               then r\<lparr>jr_status := ''completed'', jr_finished_at := Some now,
                                      jr_duration := Some duration,
                                      jr_devices_found := devicesFound result,
                                      jr_new_devices := newDevices result,
                                      jr_warnings := warnings result,
                                      jr_debug_info := Some debugInfo\<rparr>
                               else r) (job_runs db)\<rparr>"

definition failRun :: "string \<Rightarrow> string \<Rightarrow> timestamp \<Rightarrow> database \<Rightarrow> database" where
  "failRun runId errorMessage now db =
     db\<lparr>job_runs := map (\<lambda>r. if jr_id r = runId
                               then r\<lparr>jr_status := ''failed'', jr_finished_at := Some now,
                                      jr_error_message := Some errorMessage\<rparr>
                               else r) (job_runs db)\<rparr>"

text \<open>The body of \<^verbatim>\<open>try\<close>: the outcome, and the database as it is left.\<close>

definition scanAndProcess ::
  "environment \<Rightarrow> string \<Rightarrow> string \<Rightarrow> job \<Rightarrow> ssh_host list \<Rightarrow> string set \<Rightarrow> database
     \<Rightarrow> (error + unit) \<times> database" where
  "scanAndProcess env jobId runId job sshHosts whitelist db =
     (case scanHosts env sshHosts ([], [], 0) of
        (allDevices, debugInfo, successfulHosts) \<Rightarrow>
          if successfulHosts = 0 then (Inl (JsError ''Failed to scan any hosts''), db)
          else (case processDevices jobId allDevices whitelist job (env_now env) db of
                  (Inl e, db') \<Rightarrow> (Inl e, db')
                | (Inr result, db') \<Rightarrow>
                    (Inr (),
                     resetJob ''active'' jobId (env_now env)
                       (completeRun runId ((env_endTime env - env_startTime env) div 1000)
                          result debugInfo (env_now env) db'))))"

text \<open>
  \<^verbatim>\<open>runJob\<close> on the registry \<^verbatim>\<open>this.runningJobs\<close> and the database. The three checks
  and the first \<^verbatim>\<open>INSERT\<close> come before \<^verbatim>\<open>try\<close>: an error there leaves the function
  at once. \<^verbatim>\<open>catch\<close> records the failure and throws the error again; \<^verbatim>\<open>finally\<close>
  takes the job out of the registry.
\<close>

definition runJob ::
  "environment \<Rightarrow> string \<Rightarrow> (string \<times> string \<times> int) list \<Rightarrow> database
     \<Rightarrow> (error + unit) \<times> (string \<times> string \<times> int) list \<times> database" where
  "runJob env jobId runningJobs db =
     (if map_of runningJobs jobId \<noteq> None
      then (Inl (JsError ''Job is already running''), runningJobs, db)
      else case find (\<lambda>j. j_id j = jobId \<and> j_status j = ''active'') (jobs db) of
        None \<Rightarrow> (Inl (JsError ''Job not found or inactive''), runningJobs, db)
      | Some job \<Rightarrow>
          (let sshHosts = filter (\<lambda>h. h_job_id h = jobId \<and> h_enabled h = 1) (ssh_hosts db)
           in if sshHosts = []
              then (Inl (JsError ''No enabled SSH hosts configured for this job''), runningJobs, db)
              else
                (let whitelist = set (map wl_mac_address
                                        (filter (\<lambda>w. wl_job_id w = jobId) (job_whitelist db)));
                     runId = env_uuid env
                 in case createRun runId jobId (length sshHosts) (env_now env) db of
                      Inl e \<Rightarrow> (Inl e, runningJobs, db)
                    | Inr db1 \<Rightarrow>
                        (let db2 = updateJob ''running'' jobId (env_now env) db1;
                             runningJobs1 = AList.update jobId (runId, env_startTime env) runningJobs
                         in case scanAndProcess env jobId runId job sshHosts whitelist db2 of
                              (Inr u, db3) \<Rightarrow> (Inr u, AList.delete jobId runningJobs1, db3)
                            | (Inl error, db3) \<Rightarrow>
                                (Inl error, AList.delete jobId runningJobs1,
                                 resetJob ''active'' jobId (env_now env)
                                   (failRun runId (message error) (env_now env) db3))))))"

section \<open>What the statements below speak of\<close>

text \<open>
  The key of a device in the inventory of a job is the pair of its MAC address and its
  host name; \<open>deviceKeys\<close> lists the keys of a batch in the order of the batch.
\<close>

definition deviceKeys :: "device list \<Rightarrow> (string \<times> string) list" where
  "deviceKeys devices = map (\<lambda>d. (mac_address d, host_name d)) devices"

definition keysOf :: "device list \<Rightarrow> string set" where
  "keysOf devices = (\<lambda>d. deviceKey (mac_address d) (host_name d)) ` set devices"

definition observes :: "known_device \<Rightarrow> device \<Rightarrow> bool" where
  "observes r d = (mac_address d = kd_mac_address r \<and> host_name d = kd_host_name r)"

definition isNewDevice :: "string \<Rightarrow> database \<Rightarrow> device \<Rightarrow> bool" where
  "isNewDevice jobId db d =
     (\<not> list_ex (sameDevice jobId (mac_address d) (host_name d)) (known_devices db))"

text \<open>
  The addresses that the engine works on come out of the parser, so they match
  \<^const>\<open>isValidMAC\<close>: those of the batch, and those of the rows of the job, which earlier
  runs have inserted.
\<close>

definition wellFormed :: "string \<Rightarrow> device list \<Rightarrow> database \<Rightarrow> bool" where
  "wellFormed jobId devices db =
     (list_all (\<lambda>d. isValidMAC (mac_address d)) devices \<and>
      list_all (\<lambda>r. kd_job_id r = jobId \<longrightarrow> isValidMAC (kd_mac_address r)) (known_devices db))"

text \<open>
  What a row of the inventory has become when the loop has gone through \<open>devices\<close>,
  and what it has become when the rows not seen have been marked.
\<close>

definition loopRow :: "string \<Rightarrow> device list \<Rightarrow> timestamp \<Rightarrow> known_device \<Rightarrow> known_device" where
  "loopRow jobId devices now r =
     (if kd_job_id r = jobId
      then (case find (observes r) devices of Some d \<Rightarrow> touchRow d now r | None \<Rightarrow> r)
      else r)"

definition reconciledRow :: "string \<Rightarrow> device list \<Rightarrow> timestamp \<Rightarrow> known_device \<Rightarrow> known_device" where
  "reconciledRow jobId devices now r =
     (if kd_job_id r = jobId
      then (case find (observes r) devices of
              Some d \<Rightarrow> touchRow d now r
            | None \<Rightarrow> r\<lparr>kd_status := ''inactive''\<rparr>)
      else r)"

text \<open>The state of the loop after the devices \<open>ps\<close>, from the database \<open>db\<close>.\<close>

definition loopInv ::
  "string \<Rightarrow> string set \<Rightarrow> timestamp \<Rightarrow> database \<Rightarrow> device list \<Rightarrow> loop_state \<Rightarrow> bool" where
  "loopInv jobId wl now db ps s =
     (known_devices (st_db s) =
        map (loopRow jobId ps now) (known_devices db) @
        map (\<lambda>d. newKnownDevice jobId d (mac_address d \<in> wl) now) (filter (isNewDevice jobId db) ps)
      \<and> st_knownDevices s = filter (\<lambda>p. fst p \<notin> keysOf ps) (loadKnownDevices jobId db)
      \<and> st_newDevices s = length (filter (isNewDevice jobId db) ps))"

text \<open>A host fails its scan: the call throws, or the command does not succeed.\<close>

definition hostFails :: "environment \<Rightarrow> ssh_host \<Rightarrow> bool" where
  "hostFails env host =
     (case env_ssh env host of
        Threw m \<Rightarrow> True
      | Ran (CommandFailed e) \<Rightarrow> True
      | Ran (CommandOk output) \<Rightarrow> False)"

definition enabledHosts :: "string \<Rightarrow> database \<Rightarrow> ssh_host list" where
  "enabledHosts jobId db = filter (\<lambda>h. h_job_id h = jobId \<and> h_enabled h = 1) (ssh_hosts db)"

definition jobWhitelist :: "string \<Rightarrow> database \<Rightarrow> string set" where
  "jobWhitelist jobId db =
     set (map wl_mac_address (filter (\<lambda>w. wl_job_id w = jobId) (job_whitelist db)))"

section \<open>Example data\<close>

definition deviceA1 :: device where
  "deviceA1 = \<lparr>mac_address = ''aa:bb:cc:dd:ee:ff'', vlan_id = Exact 10, dtype = ''dynamic'',
                interface_name = ''Gi0/1'', host_name = ''SwitchA'',
                detected_at = ''2024-05-01T10:00:00.000Z''\<rparr>"

definition deviceA2 :: device where
  "deviceA2 = \<lparr>mac_address = ''aa:bb:cc:dd:ee:ff'', vlan_id = Exact 20, dtype = ''dynamic'',
                interface_name = ''Gi0/2'', host_name = ''SwitchA'',
                detected_at = ''2024-05-01T10:00:00.000Z''\<rparr>"

definition deviceB :: device where
  "deviceB = \<lparr>mac_address = ''11:22:33:44:55:66'', vlan_id = Exact 10, dtype = ''dynamic'',
               interface_name = ''Gi0/3'', host_name = ''SwitchA'',
               detected_at = ''2024-05-01T10:00:00.000Z''\<rparr>"

definition exampleJob :: job where
  "exampleJob = \<lparr>j_id = ''job1'', j_name = ''Office'', j_vlan_id = None,
                  j_notifications_enabled = 1, j_notify_new_macs = 1,
                  j_notify_unauthorized_macs = 1, j_notify_ip_changes = 1,
                  j_retention_policy = ''days'', j_retention_days = 7,
                  j_status = ''active'', j_updated_at = 0, j_last_run = None\<rparr>"

definition exampleHost :: ssh_host where
  "exampleHost = \<lparr>h_job_id = ''job1'', h_name = ''Core'', h_host = ''SwitchA'', h_port = 22,
                   h_username = ''admin'', h_password_encrypted = ''0a1b:2c3d'', h_enabled = 1\<rparr>"

text \<open>A device of the job seen by an earlier run, on another address than the ones above.\<close>

definition knownC :: known_device where
  "knownC = \<lparr>kd_job_id = ''job1'', kd_mac_address = ''cc:cc:cc:00:00:01'',
              kd_host_name = ''SwitchA'', kd_interface_name = ''Gi0/9'', kd_vlan_id = Exact 10,
              kd_whitelisted = 0, kd_first_seen = 100, kd_last_seen = 100,
              kd_status = ''active''\<rparr>"

definition emptyDb :: database where
  "emptyDb = \<lparr>jobs = [exampleJob], ssh_hosts = [exampleHost], job_whitelist = [],
               job_runs = [], known_devices = [], notifications = [], device_history = []\<rparr>"

definition exampleDb :: database where
  "exampleDb = emptyDb\<lparr>known_devices := [knownC]\<rparr>"

text \<open>
  An environment where every host answers the command with \<open>output\<close>, and one where
  every host refuses the connection.
\<close>

definition answering :: "string \<Rightarrow> environment" where
  "answering output =
     \<lparr>env_ssh = (\<lambda>h. Ran (CommandOk output)), env_uuid = ''run1'', env_now = 1000,
      env_startTime = 5000, env_endTime = 8500, env_iso = ''2024-05-01T10:00:00.000Z''\<rparr>"

definition refusing :: environment where
  "refusing =
     \<lparr>env_ssh = (\<lambda>h. Ran (CommandFailed ''connect ECONNREFUSED'')), env_uuid = ''run1'',
      env_now = 1000, env_startTime = 5000, env_endTime = 8500,
      env_iso = ''2024-05-01T10:00:00.000Z''\<rparr>"

text \<open>The same address learned on two VLANs of one switch: two lines, one key.\<close>

definition twoVlans :: string where
  "twoVlans = ''10 aa:bb:cc:dd:ee:ff dynamic Gi0/1'' @ [CHR 0x0A]
              @ ''20 aa:bb:cc:dd:ee:ff dynamic Gi0/2''"

section \<open>Keys\<close>

text \<open>
  An address that matches \<^const>\<open>isValidMAC\<close> has 17 characters, so the key
  \<^const>\<open>deviceKey\<close> of the map determines the address and the host name.
\<close>

lemma macGroups_length: "macGroups n s \<Longrightarrow> length s = 3 * n + 2"
  by (induction n arbitrary: s) (auto split: list.splits)

lemma isValidMAC_length: "isValidMAC m \<Longrightarrow> length m = 17"
  by (auto simp: isValidMAC_def dest: macGroups_length)

lemma deviceKey_eq:
  "length m1 = length m2 \<Longrightarrow> deviceKey m1 h1 = deviceKey m2 h2 \<longleftrightarrow> m1 = m2 \<and> h1 = h2"
  by (auto simp: deviceKey_def)

lemma deviceKey_valid:
  "isValidMAC m1 \<Longrightarrow> isValidMAC m2 \<Longrightarrow> deviceKey m1 h1 = deviceKey m2 h2 \<longleftrightarrow> m1 = m2 \<and> h1 = h2"
  by (rule deviceKey_eq) (simp add: isValidMAC_length)

text \<open>
  Without that the key of the map does not tell the pairs apart: the colon that joins
  the two parts may as well belong to one of them.
\<close>

lemma deviceKey_collision: "deviceKey ''a'' ''b:c'' = deviceKey ''a:b'' ''c''"
  by (simp add: deviceKey_def)

subsection \<open>The map as loaded\<close>

lemma set_AList_update: "set (AList.update k v al) \<subseteq> insert (k, v) (set al)"
  by (induction al) auto

lemma load_fold_sound:
  "(k, r) \<in> set (foldl (\<lambda>m d. AList.update (deviceKey (kd_mac_address d) (kd_host_name d)) d m) acc rows)
   \<Longrightarrow> (k, r) \<in> set acc \<or> (r \<in> set rows \<and> k = deviceKey (kd_mac_address r) (kd_host_name r))"
proof (induction rows arbitrary: acc)
  case Nil
  then show ?case by simp
next
  case (Cons x rows)
  from Cons.IH [OF Cons.prems [simplified]]
  show ?case using set_AList_update [of "deviceKey (kd_mac_address x) (kd_host_name x)" x acc]
    by auto
qed

lemma load_fold_dom:
  "fst ` set (foldl (\<lambda>m d. AList.update (deviceKey (kd_mac_address d) (kd_host_name d)) d m) acc rows)
   = fst ` set acc \<union> (\<lambda>r. deviceKey (kd_mac_address r) (kd_host_name r)) ` set rows"
  by (induction rows arbitrary: acc) (auto simp: AList.dom_update)

lemma loadKnownDevices_sound:
  "(k, r) \<in> set (loadKnownDevices jobId db)
   \<Longrightarrow> r \<in> set (known_devices db) \<and> kd_job_id r = jobId
       \<and> k = deviceKey (kd_mac_address r) (kd_host_name r)"
  unfolding loadKnownDevices_def by (drule load_fold_sound) auto

lemma loadKnownDevices_dom:
  "fst ` set (loadKnownDevices jobId db)
   = (\<lambda>r. deviceKey (kd_mac_address r) (kd_host_name r)) ` {r \<in> set (known_devices db). kd_job_id r = jobId}"
  unfolding loadKnownDevices_def by (simp add: load_fold_dom)

subsection \<open>One pass of the loop body\<close>

lemma processDevice_existing:
  assumes "map_of (st_knownDevices s) (deviceKey (mac_address d) (host_name d)) = Some e"
  shows "\<exists>s'. processDevice jobId wl job now d s = Inr s'
           \<and> known_devices (st_db s') =
               map (\<lambda>r. if sameDevice jobId (mac_address d) (host_name d) r then touchRow d now r else r)
                   (known_devices (st_db s))
           \<and> st_knownDevices s' = AList.delete (deviceKey (mac_address d) (host_name d)) (st_knownDevices s)
           \<and> st_newDevices s' = st_newDevices s"
  using assms
  by (simp add: processDevice_def Let_def insertHistory_def updateKnownDevice_def createNotification_def)

lemma processDevice_insert:
  assumes "map_of (st_knownDevices s) (deviceKey (mac_address d) (host_name d)) = None"
    and "\<not> list_ex (sameDevice jobId (mac_address d) (host_name d)) (known_devices (st_db s))"
  shows "\<exists>s'. processDevice jobId wl job now d s = Inr s'
           \<and> known_devices (st_db s') =
               known_devices (st_db s) @ [newKnownDevice jobId d (mac_address d \<in> wl) now]
           \<and> st_knownDevices s' = st_knownDevices s
           \<and> st_newDevices s' = st_newDevices s + 1"
  using assms
  by (simp add: processDevice_def Let_def insertHistory_def insertKnownDevice_def
                createNotification_def newKnownDevice_def)

lemma processDevice_duplicate:
  assumes "map_of (st_knownDevices s) (deviceKey (mac_address d) (host_name d)) = None"
    and "list_ex (sameDevice jobId (mac_address d) (host_name d)) (known_devices (st_db s))"
  shows "processDevice jobId wl job now d s = Inl (SqliteError uniqueFailed, st_db s)"
  using assms
  by (simp add: processDevice_def Let_def insertKnownDevice_def newKnownDevice_def)

lemma processLoop_append:
  "processLoop jobId wl job now (xs @ ys) s =
     (case processLoop jobId wl job now xs s of
        Inl e \<Rightarrow> Inl e
      | Inr s' \<Rightarrow> processLoop jobId wl job now ys s')"
  by (induction xs arbitrary: s) (auto split: sum.splits)

lemma processLoop_snoc:
  "processLoop jobId wl job now (xs @ [d]) s =
     (case processLoop jobId wl job now xs s of
        Inl e \<Rightarrow> Inl e
      | Inr s' \<Rightarrow> processDevice jobId wl job now d s')"
  by (simp add: processLoop_append split: sum.splits)

subsection \<open>The state of the loop\<close>

lemma sameDevice_touchRow [simp]:
  "sameDevice j m h (touchRow d now r) = sameDevice j m h r"
  by (simp add: sameDevice_def touchRow_def)

lemma sameDevice_loopRow [simp]:
  "sameDevice j m h (loopRow j' ps now r) = sameDevice j m h r"
  by (simp add: loopRow_def split: option.splits)

lemma sameDevice_new [simp]:
  "sameDevice j m h (newKnownDevice j' d w now) = (j' = j \<and> mac_address d = m \<and> host_name d = h)"
  by (auto simp: sameDevice_def newKnownDevice_def)

lemma observes_sameDevice:
  "sameDevice jobId (mac_address d) (host_name d) r \<longleftrightarrow> kd_job_id r = jobId \<and> observes r d"
  by (auto simp: sameDevice_def observes_def)

lemma find_snoc:
  "find P (xs @ [x]) = (case find P xs of Some y \<Rightarrow> Some y | None \<Rightarrow> if P x then Some x else None)"
  by (induction xs) auto

lemma loopInv_initial: "loopInv jobId wl now db [] (initialState jobId db)"
  by (simp add: loopInv_def initialState_def loopRow_def keysOf_def map_idI)

lemma wellFormed_snoc:
  "wellFormed jobId (ps @ [d]) db \<longleftrightarrow> wellFormed jobId ps db \<and> isValidMAC (mac_address d)"
  by (auto simp: wellFormed_def)

lemma wellFormed_row:
  "wellFormed jobId ps db \<Longrightarrow> r \<in> set (known_devices db) \<Longrightarrow> kd_job_id r = jobId
   \<Longrightarrow> isValidMAC (kd_mac_address r)"
  by (auto simp: wellFormed_def list_all_iff)

lemma wellFormed_device:
  "wellFormed jobId ps db \<Longrightarrow> d \<in> set ps \<Longrightarrow> isValidMAC (mac_address d)"
  by (auto simp: wellFormed_def list_all_iff)

text \<open>With well-formed addresses, equal keys of the map are equal pairs.\<close>

lemma key_in_keysOf:
  assumes "wellFormed jobId ps db" "isValidMAC m"
  shows "deviceKey m h \<in> keysOf ps \<longleftrightarrow> (\<exists>d\<in>set ps. mac_address d = m \<and> host_name d = h)"
proof
  assume "deviceKey m h \<in> keysOf ps"
  then obtain d where d: "d \<in> set ps" "deviceKey m h = deviceKey (mac_address d) (host_name d)"
    by (auto simp: keysOf_def)
  with assms have "m = mac_address d \<and> h = host_name d"
    using deviceKey_valid [of m "mac_address d" h "host_name d"] wellFormed_device by blast
  with d show "\<exists>d\<in>set ps. mac_address d = m \<and> host_name d = h" by auto
next
  assume "\<exists>d\<in>set ps. mac_address d = m \<and> host_name d = h"
  then show "deviceKey m h \<in> keysOf ps" by (auto simp: keysOf_def)
qed

lemma key_in_loaded:
  assumes "wellFormed jobId ps db" "isValidMAC m"
  shows "deviceKey m h \<in> fst ` set (loadKnownDevices jobId db)
         \<longleftrightarrow> list_ex (sameDevice jobId m h) (known_devices db)"
proof
  assume "deviceKey m h \<in> fst ` set (loadKnownDevices jobId db)"
  then obtain r where r: "r \<in> set (known_devices db)" "kd_job_id r = jobId"
      "deviceKey m h = deviceKey (kd_mac_address r) (kd_host_name r)"
    by (auto simp: loadKnownDevices_dom)
  with assms have "m = kd_mac_address r \<and> h = kd_host_name r"
    using deviceKey_valid [of m "kd_mac_address r" h "kd_host_name r"] wellFormed_row by blast
  with r show "list_ex (sameDevice jobId m h) (known_devices db)"
    by (auto simp: list_ex_iff sameDevice_def)
next
  assume "list_ex (sameDevice jobId m h) (known_devices db)"
  then show "deviceKey m h \<in> fst ` set (loadKnownDevices jobId db)"
    by (force simp: list_ex_iff sameDevice_def loadKnownDevices_dom)
qed

text \<open>The rows of a key while the loop runs.\<close>

lemma loopInv_rows:
  assumes "loopInv jobId wl now db ps s"
  shows "list_ex (sameDevice jobId m h) (known_devices (st_db s))
         \<longleftrightarrow> list_ex (sameDevice jobId m h) (known_devices db)
             \<or> (\<exists>d\<in>set ps. isNewDevice jobId db d \<and> mac_address d = m \<and> host_name d = h)"
proof -
  have kd: "known_devices (st_db s) =
        map (loopRow jobId ps now) (known_devices db) @
        map (\<lambda>d. newKnownDevice jobId d (mac_address d \<in> wl) now) (filter (isNewDevice jobId db) ps)"
    using assms by (simp add: loopInv_def)
  show ?thesis
    unfolding kd list_ex_iff set_append set_map bex_Un bex_simps set_filter
    by (simp add: conj_commute conj_left_commute) blast
qed

lemma loopInv_lookup:
  assumes "loopInv jobId wl now db ps s"
  shows "map_of (st_knownDevices s) k = None
         \<longleftrightarrow> k \<in> keysOf ps \<or> k \<notin> fst ` set (loadKnownDevices jobId db)"
proof -
  have "map_of (st_knownDevices s) k = None \<longleftrightarrow> k \<notin> fst ` set (st_knownDevices s)"
    by (simp add: map_of_eq_None_iff)
  also have "\<dots> \<longleftrightarrow> k \<in> keysOf ps \<or> k \<notin> fst ` set (loadKnownDevices jobId db)"
    using assms by (force simp: loopInv_def)
  finally show ?thesis .
qed

lemma keysOf_snoc: "keysOf (ps @ [d]) = insert (deviceKey (mac_address d) (host_name d)) (keysOf ps)"
  by (auto simp: keysOf_def)

lemma find_observes_None:
  "find (observes r) ps = None \<longleftrightarrow> (\<forall>d\<in>set ps. \<not> (mac_address d = kd_mac_address r \<and> host_name d = kd_host_name r))"
  by (auto simp: find_None_iff observes_def)

lemma loopInv_step:
  assumes wf: "wellFormed jobId (ps @ [d]) db"
    and inv: "loopInv jobId wl now db ps s"
    and step: "processDevice jobId wl job now d s = Inr s'"
  shows "loopInv jobId wl now db (ps @ [d]) s'"
proof -
  let ?key = "deviceKey (mac_address d) (host_name d)"
  let ?new = "\<lambda>d. newKnownDevice jobId d (mac_address d \<in> wl) now"
  from wf have wfps: "wellFormed jobId ps db" and vd: "isValidMAC (mac_address d)"
    by (simp_all add: wellFormed_snoc)
  from inv have kd: "known_devices (st_db s) =
        map (loopRow jobId ps now) (known_devices db) @ map ?new (filter (isNewDevice jobId db) ps)"
    and K: "st_knownDevices s = filter (\<lambda>p. fst p \<notin> keysOf ps) (loadKnownDevices jobId db)"
    and N: "st_newDevices s = length (filter (isNewDevice jobId db) ps)"
    by (simp_all add: loopInv_def)
  show ?thesis
  proof (cases "map_of (st_knownDevices s) ?key")
    case None
    have norow: "\<not> list_ex (sameDevice jobId (mac_address d) (host_name d)) (known_devices (st_db s))"
      using processDevice_duplicate [OF None, of jobId wl job now] step by auto
    from processDevice_insert [OF None norow, of wl job now] step
    have kd': "known_devices (st_db s') = known_devices (st_db s) @ [?new d]"
      and K': "st_knownDevices s' = st_knownDevices s"
      and N': "st_newDevices s' = st_newDevices s + 1"
      by auto
    from norow loopInv_rows [OF inv, of "mac_address d" "host_name d"]
    have fresh0: "\<not> list_ex (sameDevice jobId (mac_address d) (host_name d)) (known_devices db)"
      by simp
    then have new: "isNewDevice jobId db d" by (simp add: isNewDevice_def)
    have rows: "loopRow jobId (ps @ [d]) now r = loopRow jobId ps now r"
      if "r \<in> set (known_devices db)" for r
    proof (cases "kd_job_id r = jobId \<and> observes r d")
      case True
      with that fresh0 show ?thesis
        by (auto simp: list_ex_iff observes_sameDevice)
    next
      case False
      then show ?thesis by (auto simp: loopRow_def find_snoc split: option.splits)
    qed
    have keynot: "?key \<notin> fst ` set (st_knownDevices s)"
      using None by (simp add: map_of_eq_None_iff)
    have "filter (\<lambda>p. fst p \<notin> keysOf (ps @ [d])) (loadKnownDevices jobId db)
          = filter (\<lambda>p. fst p \<notin> keysOf ps) (loadKnownDevices jobId db)"
      using keynot unfolding K keysOf_snoc by (intro filter_cong) force+
    with kd kd' K K' N N' new rows show ?thesis
      by (simp add: loopInv_def cong: map_cong)
  next
    case (Some e)
    from processDevice_existing [OF Some, of jobId wl job now] step
    have kd': "known_devices (st_db s') =
                 map (\<lambda>r. if sameDevice jobId (mac_address d) (host_name d) r then touchRow d now r else r)
                     (known_devices (st_db s))"
      and K': "st_knownDevices s' = AList.delete ?key (st_knownDevices s)"
      and N': "st_newDevices s' = st_newDevices s"
      by auto
    from Some loopInv_lookup [OF inv, of ?key]
    have notseen: "?key \<notin> keysOf ps" and loaded: "?key \<in> fst ` set (loadKnownDevices jobId db)"
      by auto
    from notseen key_in_keysOf [OF wfps vd, of "host_name d"]
    have unique: "\<And>d'. d' \<in> set ps \<Longrightarrow> \<not> (mac_address d' = mac_address d \<and> host_name d' = host_name d)"
      by blast
    from loaded key_in_loaded [OF wfps vd, of "host_name d"]
    have old: "\<not> isNewDevice jobId db d" by (simp add: isNewDevice_def)
    have rows: "(if sameDevice jobId (mac_address d) (host_name d) (loopRow jobId ps now r)
                 then touchRow d now (loopRow jobId ps now r) else loopRow jobId ps now r)
                = loopRow jobId (ps @ [d]) now r" for r
    proof (cases "kd_job_id r = jobId \<and> observes r d")
      case True
      then have "find (observes r) ps = None"
        using unique by (auto simp: find_observes_None observes_def)
      moreover from True have "sameDevice jobId (mac_address d) (host_name d) (loopRow jobId ps now r)"
        by (simp add: observes_sameDevice)
      ultimately show ?thesis using True
        by (simp add: loopRow_def find_snoc)
    next
      case False
      then have "\<not> sameDevice jobId (mac_address d) (host_name d) (loopRow jobId ps now r)"
        by (simp add: observes_sameDevice)
      moreover from False have "loopRow jobId (ps @ [d]) now r = loopRow jobId ps now r"
        by (auto simp: loopRow_def find_snoc split: option.splits)
      ultimately show ?thesis by simp
    qed
    have news: "(if sameDevice jobId (mac_address d) (host_name d) (?new d')
                 then touchRow d now (?new d') else ?new d') = ?new d'"
      if "d' \<in> set ps" for d'
      using unique [OF that] by auto
    have "AList.delete ?key (filter (\<lambda>p. fst p \<notin> keysOf ps) (loadKnownDevices jobId db))
          = filter (\<lambda>p. fst p \<notin> keysOf (ps @ [d])) (loadKnownDevices jobId db)"
      by (auto simp: AList.delete_eq keysOf_snoc intro: filter_cong)
    with kd kd' K K' N N' old rows news show ?thesis
      by (simp add: loopInv_def cong: map_cong)
  qed
qed

lemma processLoop_inv:
  assumes "wellFormed jobId ps db"
    and "processLoop jobId wl job now ps (initialState jobId db) = Inr s"
  shows "loopInv jobId wl now db ps s"
  using assms
proof (induction ps arbitrary: s rule: rev_induct)
  case Nil
  then show ?case using loopInv_initial by auto
next
  case (snoc d ps)
  from snoc.prems(2) obtain s0 where
    s0: "processLoop jobId wl job now ps (initialState jobId db) = Inr s0"
    and step: "processDevice jobId wl job now d s0 = Inr s"
    by (auto simp: processLoop_snoc split: sum.splits)
  from snoc.prems(1) have "wellFormed jobId ps db" by (simp add: wellFormed_snoc)
  from snoc.IH [OF this s0] have "loopInv jobId wl now db ps s0" .
  from loopInv_step [OF snoc.prems(1) this step] show ?case .
qed

subsection \<open>When the loop completes\<close>

lemma in_deviceKeys:
  "(m, h) \<in> set (deviceKeys ps) \<longleftrightarrow> (\<exists>d\<in>set ps. mac_address d = m \<and> host_name d = h)"
  by (auto simp: deviceKeys_def)

text \<open>A step of the loop throws exactly on a key that the loop has been through.\<close>

lemma processDevice_fails_iff:
  assumes wf: "wellFormed jobId (ps @ [d]) db"
    and inv: "loopInv jobId wl now db ps s"
  shows "(\<exists>e. processDevice jobId wl job now d s = Inl e)
         \<longleftrightarrow> (mac_address d, host_name d) \<in> set (deviceKeys ps)"
proof -
  let ?key = "deviceKey (mac_address d) (host_name d)"
  from wf have wfps: "wellFormed jobId ps db" and vd: "isValidMAC (mac_address d)"
    by (simp_all add: wellFormed_snoc)
  note seen = key_in_keysOf [OF wfps vd, of "host_name d"]
  note loaded = key_in_loaded [OF wfps vd, of "host_name d"]
  note rows = loopInv_rows [OF inv, of "mac_address d" "host_name d"]
  show ?thesis
  proof (cases "map_of (st_knownDevices s) ?key")
    case (Some e)
    with loopInv_lookup [OF inv, of ?key] have "?key \<notin> keysOf ps" by auto
    with seen have "(mac_address d, host_name d) \<notin> set (deviceKeys ps)"
      by (simp add: in_deviceKeys)
    with processDevice_existing [OF Some, of jobId wl job now] show ?thesis by auto
  next
    case None
    with loopInv_lookup [OF inv, of ?key]
    have absent: "?key \<in> keysOf ps \<or> ?key \<notin> fst ` set (loadKnownDevices jobId db)" by simp
    show ?thesis
    proof (cases "list_ex (sameDevice jobId (mac_address d) (host_name d)) (known_devices (st_db s))")
      case True
      with rows absent loaded seen have "(mac_address d, host_name d) \<in> set (deviceKeys ps)"
        by (auto simp: in_deviceKeys)
      with processDevice_duplicate [OF None True, of wl job now] show ?thesis by simp
    next
      case False
      with rows have r0: "\<not> list_ex (sameDevice jobId (mac_address d) (host_name d)) (known_devices db)"
        and fresh: "\<And>d'. d' \<in> set ps \<Longrightarrow> isNewDevice jobId db d'
                     \<Longrightarrow> \<not> (mac_address d' = mac_address d \<and> host_name d' = host_name d)"
        by auto
      have "\<not> (mac_address d' = mac_address d \<and> host_name d' = host_name d)" if "d' \<in> set ps" for d'
      proof (cases "isNewDevice jobId db d'")
        case True
        with fresh that show ?thesis by blast
      next
        case False
        with r0 show ?thesis by (auto simp: isNewDevice_def)
      qed
      then have "(mac_address d, host_name d) \<notin> set (deviceKeys ps)"
        by (auto simp: in_deviceKeys)
      with processDevice_insert [OF None False, of wl job now] show ?thesis by auto
    qed
  qed
qed

lemma processLoop_success_iff:
  assumes "wellFormed jobId ps db"
  shows "(\<exists>s. processLoop jobId wl job now ps (initialState jobId db) = Inr s)
         \<longleftrightarrow> distinct (deviceKeys ps)"
  using assms
proof (induction ps rule: rev_induct)
  case Nil
  show ?case by (simp add: deviceKeys_def)
next
  case (snoc d ps)
  from snoc.prems have wfps: "wellFormed jobId ps db" by (simp add: wellFormed_snoc)
  note IH = snoc.IH [OF wfps]
  show ?case
  proof (cases "processLoop jobId wl job now ps (initialState jobId db)")
    case (Inl e)
    with IH show ?thesis by (simp add: processLoop_snoc deviceKeys_def)
  next
    case (Inr s0)
    with IH have dist: "distinct (deviceKeys ps)" by auto
    from processLoop_inv [OF wfps Inr] have inv: "loopInv jobId wl now db ps s0" .
    from processDevice_fails_iff [OF snoc.prems inv, of job]
    have "(\<exists>s. processDevice jobId wl job now d s0 = Inr s)
          \<longleftrightarrow> (mac_address d, host_name d) \<notin> set (deviceKeys ps)"
      by (cases "processDevice jobId wl job now d s0") auto
    with Inr dist show ?thesis
      by (simp add: processLoop_snoc deviceKeys_def)
  qed
qed

subsection \<open>Marking what was not seen\<close>

lemma updateInactive_rows:
  "known_devices (updateInactive jobId m h db) =
     map (\<lambda>r. if sameDevice jobId m h r then r\<lparr>kd_status := ''inactive''\<rparr> else r) (known_devices db)"
  by (simp add: updateInactive_def)

lemma markNotSeen_rows:
  "known_devices (markNotSeen jobId K db) =
     map (\<lambda>r. if list_ex (\<lambda>p. sameDevice jobId (kd_mac_address (snd p)) (kd_host_name (snd p)) r) K
              then r\<lparr>kd_status := ''inactive''\<rparr> else r)
         (known_devices db)"
proof (induction K arbitrary: db)
  case Nil
  show ?case by (simp add: markNotSeen_def)
next
  case (Cons p K)
  obtain k e where p: "p = (k, e)" by (cases p)
  have "markNotSeen jobId (p # K) db =
        markNotSeen jobId K (updateInactive jobId (kd_mac_address e) (kd_host_name e) db)"
    by (simp add: markNotSeen_def p)
  then have "known_devices (markNotSeen jobId (p # K) db) =
        known_devices (markNotSeen jobId K (updateInactive jobId (kd_mac_address e) (kd_host_name e) db))"
    by simp
  also have "\<dots> = map (\<lambda>r. if list_ex (\<lambda>p. sameDevice jobId (kd_mac_address (snd p)) (kd_host_name (snd p)) r) K
              then r\<lparr>kd_status := ''inactive''\<rparr> else r)
         (known_devices (updateInactive jobId (kd_mac_address e) (kd_host_name e) db))"
    by (rule Cons.IH)
  also have "\<dots> = map (\<lambda>r. if list_ex (\<lambda>p. sameDevice jobId (kd_mac_address (snd p)) (kd_host_name (snd p)) r) (p # K)
              then r\<lparr>kd_status := ''inactive''\<rparr> else r)
         (known_devices db)"
    unfolding updateInactive_rows by (auto simp: p sameDevice_def)
  finally show ?case .
qed

text \<open>The table after the reconciling part of \<^verbatim>\<open>_processDevices\<close>.\<close>

lemma kd_fields_loopRow [simp]:
  "kd_job_id (loopRow j ps now r) = kd_job_id r"
  "kd_mac_address (loopRow j ps now r) = kd_mac_address r"
  "kd_host_name (loopRow j ps now r) = kd_host_name r"
  by (simp_all add: loopRow_def touchRow_def split: option.splits)

lemma left_unseen_iff:
  assumes wf: "wellFormed jobId ps db" and r0: "r0 \<in> set (known_devices db)"
  shows "list_ex (\<lambda>p. sameDevice jobId (kd_mac_address (snd p)) (kd_host_name (snd p))
                               (loopRow jobId ps now r0))
                 (filter (\<lambda>p. fst p \<notin> keysOf ps) (loadKnownDevices jobId db))
         \<longleftrightarrow> kd_job_id r0 = jobId \<and> find (observes r0) ps = None"
    (is "?L \<longleftrightarrow> ?R")
proof
  assume ?L
  then obtain k e where ke: "(k, e) \<in> set (loadKnownDevices jobId db)" "k \<notin> keysOf ps"
      and same: "kd_job_id r0 = jobId" "kd_mac_address r0 = kd_mac_address e"
                "kd_host_name r0 = kd_host_name e"
    by (auto simp: list_ex_iff sameDevice_def)
  from loadKnownDevices_sound [OF ke(1)] same
  have k: "k = deviceKey (kd_mac_address r0) (kd_host_name r0)" by simp
  have "find (observes r0) ps = None"
  proof (rule ccontr)
    assume "find (observes r0) ps \<noteq> None"
    then obtain d where "d \<in> set ps" "observes r0 d"
      by (auto simp: find_None_iff)
    then have "k \<in> keysOf ps" by (force simp: k keysOf_def observes_def)
    with ke(2) show False by simp
  qed
  with same show ?R by simp
next
  assume R: ?R
  let ?k = "deviceKey (kd_mac_address r0) (kd_host_name r0)"
  from R r0 have valid: "isValidMAC (kd_mac_address r0)"
    using wellFormed_row [OF wf] by blast
  from R r0 have "?k \<in> fst ` set (loadKnownDevices jobId db)"
    by (auto simp: loadKnownDevices_dom)
  then obtain e where e: "(?k, e) \<in> set (loadKnownDevices jobId db)" by force
  from loadKnownDevices_sound [OF e]
  have e0: "e \<in> set (known_devices db)" "kd_job_id e = jobId"
    and ek: "?k = deviceKey (kd_mac_address e) (kd_host_name e)"
    by simp_all
  from wellFormed_row [OF wf e0] have "isValidMAC (kd_mac_address e)" .
  with ek valid have same: "kd_mac_address r0 = kd_mac_address e \<and> kd_host_name r0 = kd_host_name e"
    by (simp add: deviceKey_valid)
  from R have "?k \<notin> keysOf ps"
    by (simp add: key_in_keysOf [OF wf valid] find_observes_None)
  with e same R show ?L
    by (force simp: list_ex_iff sameDevice_def)
qed

lemma inserted_not_marked:
  assumes "d \<in> set ps"
  shows "\<not> list_ex (\<lambda>p. sameDevice jobId (kd_mac_address (snd p)) (kd_host_name (snd p))
                                (newKnownDevice jobId d w now))
                  (filter (\<lambda>p. fst p \<notin> keysOf ps) (loadKnownDevices jobId db))"
proof
  assume "list_ex (\<lambda>p. sameDevice jobId (kd_mac_address (snd p)) (kd_host_name (snd p))
                                (newKnownDevice jobId d w now))
                  (filter (\<lambda>p. fst p \<notin> keysOf ps) (loadKnownDevices jobId db))"
  then obtain k e where ke: "(k, e) \<in> set (loadKnownDevices jobId db)" "k \<notin> keysOf ps"
      and same: "mac_address d = kd_mac_address e" "host_name d = kd_host_name e"
    by (auto simp: list_ex_iff sameDevice_def newKnownDevice_def)
  from loadKnownDevices_sound [OF ke(1)] same
  have "k = deviceKey (mac_address d) (host_name d)" by simp
  with assms ke(2) show False by (auto simp: keysOf_def)
qed

lemma reconciledRow_loopRow:
  "(if kd_job_id r = jobId \<and> find (observes r) ps = None
    then (loopRow jobId ps now r)\<lparr>kd_status := ''inactive''\<rparr> else loopRow jobId ps now r)
   = reconciledRow jobId ps now r"
  by (simp add: loopRow_def reconciledRow_def split: option.splits)

lemma reconcile_rows:
  assumes wf: "wellFormed jobId devices db"
    and ok: "reconcile jobId devices wl job now db = (Inr res, db')"
  shows "known_devices db' =
           map (reconciledRow jobId devices now) (known_devices db) @
           map (\<lambda>d. newKnownDevice jobId d (mac_address d \<in> wl) now)
               (filter (isNewDevice jobId db) devices)"
    and "newDevices res = length (filter (isNewDevice jobId db) devices)"
    and "devicesFound res = length devices"
proof -
  from ok obtain s where loop: "processLoop jobId wl job now devices (initialState jobId db) = Inr s"
    and db': "db' = markNotSeen jobId (st_knownDevices s) (st_db s)"
    and res: "res = \<lparr>devicesFound = length devices, newDevices = st_newDevices s,
                     warnings = st_warnings s\<rparr>"
    by (auto simp: reconcile_def split: sum.splits prod.splits)
  from processLoop_inv [OF wf loop] have inv: "loopInv jobId wl now db devices s" .
  then have kd: "known_devices (st_db s) =
        map (loopRow jobId devices now) (known_devices db) @
        map (\<lambda>d. newKnownDevice jobId d (mac_address d \<in> wl) now) (filter (isNewDevice jobId db) devices)"
    and K: "st_knownDevices s = filter (\<lambda>p. fst p \<notin> keysOf devices) (loadKnownDevices jobId db)"
    and N: "st_newDevices s = length (filter (isNewDevice jobId db) devices)"
    by (simp_all add: loopInv_def)
  show "known_devices db' =
           map (reconciledRow jobId devices now) (known_devices db) @
           map (\<lambda>d. newKnownDevice jobId d (mac_address d \<in> wl) now)
               (filter (isNewDevice jobId db) devices)"
    unfolding db' markNotSeen_rows kd K
    by (simp add: left_unseen_iff [OF wf] inserted_not_marked reconciledRow_loopRow
             del: sameDevice_loopRow sameDevice_new cong: map_cong)
  show "newDevices res = length (filter (isNewDevice jobId db) devices)"
    by (simp add: res N)
  show "devicesFound res = length devices" by (simp add: res)
qed

section \<open>The parser\<close>

lemma isHexDigit_lowerChar [simp]: "isHexDigit (lowerChar c) = isHexDigit c"
proof -
  have "of_char c < (256::nat)" by simp
  then show ?thesis
    by (auto simp: isHexDigit_def lowerChar_def Let_def)
qed

lemma isSeparator_lowerChar [simp]: "isSeparator (lowerChar c) = isSeparator c"
proof -
  have "of_char c < (256::nat)" by simp
  then show ?thesis
    by (auto simp: isSeparator_def lowerChar_def Let_def)
qed

lemma lowerChar_idem [simp]: "lowerChar (lowerChar c) = lowerChar c"
proof -
  have "of_char c < (256::nat)" by simp
  then show ?thesis
    by (auto simp: lowerChar_def Let_def)
qed

lemma macGroups_toLowerCase: "macGroups n (toLowerCase s) = macGroups n s"
  unfolding toLowerCase_def
  by (induction n arbitrary: s) (auto split: list.splits)

lemma isValidMAC_toLowerCase: "isValidMAC (toLowerCase s) = isValidMAC s"
  by (simp add: isValidMAC_def macGroups_toLowerCase)

lemma foldl_digits_nonneg:
  "list_all isDigit ds \<Longrightarrow> 0 \<le> a
   \<Longrightarrow> 0 \<le> foldl (\<lambda>a c. 10 * a + (int (of_char c) - 48)) a ds"
  by (induction ds arbitrary: a) (auto simp: isDigit_def)

lemma digitsValue_nonneg: "0 \<le> digitsValue (takeWhile isDigit s)"
proof -
  have "list_all isDigit (takeWhile isDigit s)"
    by (auto simp: list_all_iff dest: set_takeWhileD)
  then show ?thesis
    unfolding digitsValue_def by (rule foldl_digits_nonneg) simp
qed

text \<open>
  When \<^const>\<open>parseInt\<close> gives an exact value, that is an integer of magnitude up to
  \<open>2^53\<close>; a rounded one stands for a larger integer.
\<close>

lemma parseInt_range:
  "(case parseInt s of
      NaN \<Rightarrow> True
    | Exact n \<Rightarrow> \<bar>n\<bar> \<le> 9007199254740992
    | Rounded m \<Rightarrow> 9007199254740992 < \<bar>m\<bar>)"
proof -
  define pr where "pr = (case dropWhile isWhiteSpace s of
                           [] \<Rightarrow> (1 :: int, [])
                         | c # r \<Rightarrow> if c = CHR ''-'' then (- 1, r)
                                    else if c = CHR ''+'' then (1, r)
                                    else (1, dropWhile isWhiteSpace s))"
  define ds where "ds = takeWhile isDigit (snd pr)"
  have sign: "fst pr = 1 \<or> fst pr = - 1"
    by (simp add: pr_def split: list.splits)
  have eq: "parseInt s =
                 (if ds = [] then NaN
                  else if digitsValue ds \<le> 9007199254740992 then Exact (fst pr * digitsValue ds)
                  else Rounded (fst pr * digitsValue ds))"
    by (simp add: parseInt_def Let_def case_prod_beta pr_def ds_def)
  have "0 \<le> digitsValue ds" unfolding ds_def by (rule digitsValue_nonneg)
  with sign have "\<bar>fst pr * digitsValue ds\<bar> = digitsValue ds"
    by (auto simp: abs_mult)
  then show ?thesis by (simp add: eq)
qed

text \<open>
  In a text that matches the pattern, lower case changes the letters A to F (codes 65 to
  70) and nothing else.
\<close>

lemma macGroups_chars:
  "macGroups n s \<Longrightarrow> c \<in> set s \<Longrightarrow> isHexDigit c \<or> isSeparator c"
  by (induction n arbitrary: s) (auto split: list.splits)

lemma lowerChar_hex:
  assumes "isHexDigit c \<or> isSeparator c"
  shows "lowerChar c = (if 65 \<le> (of_char c :: nat) \<and> (of_char c :: nat) \<le> 70
                        then char_of (of_char c + 32 :: nat) else c)"
  using assms by (auto simp: isHexDigit_def isSeparator_def lowerChar_def Let_def)

lemma toLowerCase_valid:
  assumes "isValidMAC s"
  shows "toLowerCase s = map (\<lambda>c. if 65 \<le> (of_char c :: nat) \<and> (of_char c :: nat) \<le> 70
                                   then char_of (of_char c + 32 :: nat) else c) s"
  unfolding toLowerCase_def
proof (rule map_cong [OF refl])
  fix c assume "c \<in> set s"
  with assms have "isHexDigit c \<or> isSeparator c"
    unfolding isValidMAC_def by (rule macGroups_chars)
  then show "lowerChar c = (if 65 \<le> (of_char c :: nat) \<and> (of_char c :: nat) \<le> 70
                             then char_of (of_char c + 32 :: nat) else c)"
    by (rule lowerChar_hex)
qed

lemma lowerChar_code:
  assumes "isHexDigit c \<or> isSeparator c"
  shows "(48 \<le> (of_char (lowerChar c) :: nat) \<and> (of_char (lowerChar c) :: nat) \<le> 57)
         \<or> (97 \<le> (of_char (lowerChar c) :: nat) \<and> (of_char (lowerChar c) :: nat) \<le> 102)
         \<or> (of_char (lowerChar c) :: nat) = 58 \<or> (of_char (lowerChar c) :: nat) = 45"
proof -
  have "of_char c < (256::nat)" by simp
  with assms show ?thesis
    by (auto simp: isHexDigit_def isSeparator_def lowerChar_def Let_def)
qed

lemma toLowerCase_codes:
  assumes "isValidMAC s" "c \<in> set (toLowerCase s)"
  shows "(48 \<le> (of_char c :: nat) \<and> (of_char c :: nat) \<le> 57)
         \<or> (97 \<le> (of_char c :: nat) \<and> (of_char c :: nat) \<le> 102)
         \<or> (of_char c :: nat) = 58 \<or> (of_char c :: nat) = 45"
proof -
  from assms(2) obtain c0 where c0: "c0 \<in> set s" and c: "c = lowerChar c0"
    by (auto simp: toLowerCase_def)
  from assms(1) c0 have "isHexDigit c0 \<or> isSeparator c0"
    unfolding isValidMAC_def by (rule macGroups_chars)
  from lowerChar_code [OF this] show ?thesis by (simp add: c)
qed

lemma parseLine_Some:
  assumes "parseLine hostName detectedAt line = Some d"
  shows "\<exists>p0 p1 p2 p3 rest.
           splitWhiteSpace (trim line) = p0 # p1 # p2 # p3 # rest
           \<and> vlan_id d = parseInt p0 \<and> parseInt p0 \<noteq> NaN \<and> isValidMAC p1
           \<and> mac_address d = toLowerCase p1 \<and> host_name d = hostName"
  using assms
  by (auto simp: parseLine_def Let_def isValidMAC_toLowerCase split: if_splits list.splits)

lemma parseInt_digits:
  assumes "parseInt s \<noteq> NaN"
  shows "\<exists>sign digits tail.
           dropWhile isWhiteSpace s = sign @ digits @ tail
           \<and> (sign = [] \<or> sign = ''-'' \<or> sign = ''+'')
           \<and> digits \<noteq> [] \<and> list_all isDigit digits"
proof -
  define pr where "pr = (case dropWhile isWhiteSpace s of
                           [] \<Rightarrow> (1 :: int, [])
                         | c # r \<Rightarrow> if c = CHR ''-'' then (- 1, r)
                                    else if c = CHR ''+'' then (1, r)
                                    else (1, dropWhile isWhiteSpace s))"
  have "parseInt s = NaN" if "takeWhile isDigit (snd pr) = []"
    using that by (simp add: parseInt_def Let_def case_prod_beta pr_def)
  with assms have digits: "takeWhile isDigit (snd pr) \<noteq> []" by blast
  have all: "list_all isDigit (takeWhile isDigit (snd pr))"
    by (auto simp: list_all_iff dest: set_takeWhileD)
  have "\<exists>sign. dropWhile isWhiteSpace s = sign @ snd pr \<and> (sign = [] \<or> sign = ''-'' \<or> sign = ''+'')"
    by (auto simp: pr_def split: list.splits)
  then obtain sign where "dropWhile isWhiteSpace s = sign @ snd pr"
    and "sign = [] \<or> sign = ''-'' \<or> sign = ''+''"
    by blast
  then have "dropWhile isWhiteSpace s
               = sign @ takeWhile isDigit (snd pr) @ dropWhile isDigit (snd pr)
             \<and> (sign = [] \<or> sign = ''-'' \<or> sign = ''+'')"
    by simp
  with digits all show ?thesis by blast
qed

lemma parseLines_mem:
  "d \<in> set (parseLines hostName detectedAt lines)
   \<Longrightarrow> \<exists>line\<in>set lines. parseLine hostName detectedAt line = Some d"
  by (induction lines) (auto split: option.splits)

section \<open>Notifications\<close>

lemma notifications_insertKnownDevice:
  "insertKnownDevice row db = Inr db' \<Longrightarrow> notifications db' = notifications db"
  by (auto simp: insertKnownDevice_def split: if_splits)

lemma notifications_simps:
  "notifications (updateKnownDevice jobId device now db) = notifications db"
  "notifications (updateInactive jobId mac host db) = notifications db"
  "notifications (insertHistory jobId device now db) = notifications db"
  by (simp_all add: updateKnownDevice_def updateInactive_def insertHistory_def)

lemma notifications_applyRetentionPolicy:
  "notifications (applyRetentionPolicy jobId job now db) = notifications db"
  by (simp add: applyRetentionPolicy_def)

lemma notifications_markNotSeen:
  "notifications (markNotSeen jobId known db) = notifications db"
  unfolding markNotSeen_def
  by (induction known arbitrary: db) (auto simp: notifications_simps)

lemma processDevice_muted:
  assumes "\<not> truthy (j_notifications_enabled job)"
  shows "case processDevice jobId whitelist job now device s of
           Inl (e, db') \<Rightarrow> notifications db' = notifications (st_db s)
         | Inr s' \<Rightarrow> notifications (st_db s') = notifications (st_db s)"
  using assms
  by (auto simp: processDevice_def Let_def notifications_simps
           dest: notifications_insertKnownDevice split: option.splits sum.splits)

lemma processLoop_muted:
  assumes "\<not> truthy (j_notifications_enabled job)"
  shows "case processLoop jobId whitelist job now devices s of
           Inl (e, db') \<Rightarrow> notifications db' = notifications (st_db s)
         | Inr s' \<Rightarrow> notifications (st_db s') = notifications (st_db s)"
proof (induction devices arbitrary: s)
  case Nil
  show ?case by simp
next
  case (Cons device devices)
  show ?case
  proof (cases "processDevice jobId whitelist job now device s")
    case (Inl err)
    with processDevice_muted [OF assms, where jobId=jobId and whitelist=whitelist and now=now and device=device and s=s]
    show ?thesis by (simp split: prod.splits)
  next
    case (Inr s1)
    with processDevice_muted [OF assms, where jobId=jobId and whitelist=whitelist and now=now and device=device and s=s]
    have "notifications (st_db s1) = notifications (st_db s)" by simp
    with Cons.IH [of s1] Inr show ?thesis by (simp split: sum.splits prod.splits)
  qed
qed

section \<open>The run of a job\<close>

lemma scanHosts_all_fail:
  "list_all (hostFails env) hosts
   \<Longrightarrow> \<exists>debugInfo'. scanHosts env hosts (allDevices, debugInfo, successfulHosts)
                       = (allDevices, debugInfo', successfulHosts)"
proof (induction hosts arbitrary: debugInfo)
  case Nil
  show ?case by simp
next
  case (Cons host hosts)
  from Cons.prems have fails: "hostFails env host" and rest: "list_all (hostFails env) hosts"
    by simp_all
  from fails Cons.IH [OF rest] show ?case
    by (auto simp: hostFails_def getMacAddressTable_def Let_def
             split: host_outcome.splits command_result.splits)
qed

lemma runJob_started:
  assumes free: "map_of runningJobs jobId = None"
    and job: "find (\<lambda>j. j_id j = jobId \<and> j_status j = ''active'') (jobs db) = Some job"
    and hosts: "enabledHosts jobId db \<noteq> []"
    and run: "createRun (env_uuid env) jobId (length (enabledHosts jobId db)) (env_now env) db = Inr db1"
  shows "runJob env jobId runningJobs db =
           (case scanAndProcess env jobId (env_uuid env) job (enabledHosts jobId db)
                   (jobWhitelist jobId db) (updateJob ''running'' jobId (env_now env) db1) of
              (Inr u, db3) \<Rightarrow> (Inr u, AList.delete jobId runningJobs, db3)
            | (Inl error, db3) \<Rightarrow>
                (Inl error, AList.delete jobId runningJobs,
                 resetJob ''active'' jobId (env_now env)
                   (failRun (env_uuid env) (message error) (env_now env) db3)))"
  using assms
  by (simp add: runJob_def Let_def enabledHosts_def jobWhitelist_def AList.delete_update_same
           split: prod.splits sum.splits)

lemma processDevice_throws:
  "processDevice jobId whitelist job now device s = Inl (e, db')
   \<Longrightarrow> e = SqliteError uniqueFailed \<and> db' = st_db s"
  by (auto simp: processDevice_def Let_def insertKnownDevice_def
           split: option.splits if_splits sum.splits prod.splits)

section \<open>What the loop leaves in the other tables\<close>

lemma processDevice_other_tables:
  assumes "processDevice jobId whitelist job now device s = Inr s'"
  shows "device_history (st_db s') = device_history (st_db s) @
           [\<lparr>dh_job_id = jobId, dh_mac_address = mac_address device,
             dh_host_name = host_name device, dh_interface_name = interface_name device,
             dh_vlan_id = vlan_id device, dh_detected_at = now\<rparr>]"
    and "\<exists>ns. notifications (st_db s') = notifications (st_db s) @ ns"
    and "jobs (st_db s') = jobs (st_db s)"
    and "job_runs (st_db s') = job_runs (st_db s)"
  using assms
  by (auto simp: processDevice_def Let_def insertKnownDevice_def insertHistory_def
                 updateKnownDevice_def createNotification_def
           split: option.splits if_splits sum.splits prod.splits)

lemma processLoop_other_tables:
  assumes "processLoop jobId whitelist job now devices s = Inr s'"
  shows "device_history (st_db s') = device_history (st_db s) @
           map (\<lambda>device. \<lparr>dh_job_id = jobId, dh_mac_address = mac_address device,
                           dh_host_name = host_name device,
                           dh_interface_name = interface_name device,
                           dh_vlan_id = vlan_id device, dh_detected_at = now\<rparr>) devices
         \<and> (\<exists>ns. notifications (st_db s') = notifications (st_db s) @ ns)
         \<and> jobs (st_db s') = jobs (st_db s)
         \<and> job_runs (st_db s') = job_runs (st_db s)"
  using assms
proof (induction devices arbitrary: s)
  case Nil
  then show ?case by simp
next
  case (Cons device devices)
  from Cons.prems obtain s1 where
    step: "processDevice jobId whitelist job now device s = Inr s1"
    and rest: "processLoop jobId whitelist job now devices s1 = Inr s'"
    by (auto split: sum.splits)
  from processDevice_other_tables [OF step] Cons.IH [OF rest]
  show ?case by auto
qed

lemma loopRow_status:
  "kd_status (loopRow jobId devices now r) = ''inactive'' \<Longrightarrow> kd_status r = ''inactive''"
  by (auto simp: loopRow_def touchRow_def split: if_splits option.splits)

section \<open>Reconciled rows\<close>

lemma find_observes_key:
  "find (observes r) devices = None
   \<longleftrightarrow> (kd_mac_address r, kd_host_name r) \<notin> set (deviceKeys devices)"
  by (force simp: find_observes_None deviceKeys_def)

lemma reconciledRow_status:
  assumes "kd_job_id r = jobId"
  shows "kd_status (reconciledRow jobId devices now r) = ''inactive''
         \<longleftrightarrow> (kd_mac_address r, kd_host_name r) \<notin> set (deviceKeys devices)"
proof (cases "find (observes r) devices")
  case None
  with assms show ?thesis
    by (simp add: reconciledRow_def find_observes_key [symmetric])
next
  case (Some d)
  then have "find (observes r) devices \<noteq> None" by simp
  then have "(kd_mac_address r, kd_host_name r) \<in> set (deviceKeys devices)"
    by (simp add: find_observes_key)
  with assms Some show ?thesis
    by (simp add: reconciledRow_def touchRow_def)
qed

lemma reconciledRow_unseen:
  assumes "kd_job_id r = jobId" "(kd_mac_address r, kd_host_name r) \<notin> set (deviceKeys devices)"
  shows "reconciledRow jobId devices now r = r\<lparr>kd_status := ''inactive''\<rparr>"
  using assms by (simp add: reconciledRow_def find_observes_key [symmetric])

lemma kd_fields_reconciledRow [simp]:
  "kd_job_id (reconciledRow j ps now r) = kd_job_id r"
  "kd_mac_address (reconciledRow j ps now r) = kd_mac_address r"
  "kd_host_name (reconciledRow j ps now r) = kd_host_name r"
  "kd_whitelisted (reconciledRow j ps now r) = kd_whitelisted r"
  "kd_first_seen (reconciledRow j ps now r) = kd_first_seen r"
  by (simp_all add: reconciledRow_def touchRow_def split: option.splits)

section \<open>A second pass\<close>

lemma observes_reconciledRow [simp]:
  "observes (reconciledRow j ps now r) = observes r"
  by (simp add: observes_def fun_eq_iff)

lemma observes_new [simp]:
  "observes (newKnownDevice j d w now) d' \<longleftrightarrow> mac_address d' = mac_address d \<and> host_name d' = host_name d"
  by (simp add: observes_def newKnownDevice_def)

lemma observes_status [simp]: "observes (r\<lparr>kd_status := x\<rparr>) = observes r"
  by (simp add: observes_def fun_eq_iff)

lemma observes_touchRow [simp]: "observes (touchRow d now r) = observes r"
  by (simp add: observes_def touchRow_def fun_eq_iff)

text \<open>A row that a pass has reconciled changes in \<^verbatim>\<open>last_seen\<close> only in a further pass.\<close>

lemma reconciledRow_twice:
  "reconciledRow jobId devices now2 (reconciledRow jobId devices now1 r)
   = (if kd_job_id r = jobId \<and> (kd_mac_address r, kd_host_name r) \<in> set (deviceKeys devices)
      then (reconciledRow jobId devices now1 r)\<lparr>kd_last_seen := now2\<rparr>
      else reconciledRow jobId devices now1 r)"
proof (cases "kd_job_id r = jobId")
  case False
  then show ?thesis by (simp add: reconciledRow_def)
next
  case True
  show ?thesis
  proof (cases "find (observes r) devices")
    case None
    then have "(kd_mac_address r, kd_host_name r) \<notin> set (deviceKeys devices)"
      by (simp add: find_observes_key)
    with True None show ?thesis
      by (simp add: reconciledRow_def)
  next
    case (Some d)
    then have "find (observes r) devices \<noteq> None" by simp
    then have "(kd_mac_address r, kd_host_name r) \<in> set (deviceKeys devices)"
      by (simp add: find_observes_key)
    with True Some show ?thesis
      by (simp add: reconciledRow_def) (simp add: touchRow_def)
  qed
qed

lemma find_distinct_key:
  assumes "distinct (deviceKeys devices)" "d \<in> set devices"
  shows "find (\<lambda>d'. mac_address d' = mac_address d \<and> host_name d' = host_name d) devices = Some d"
  using assms
  by (induction devices) (auto simp: deviceKeys_def)

lemma reconciledRow_inserted:
  assumes "distinct (deviceKeys devices)" "d \<in> set devices"
  shows "reconciledRow jobId devices now2 (newKnownDevice jobId d w now1)
         = (newKnownDevice jobId d w now1)\<lparr>kd_last_seen := now2\<rparr>"
proof -
  have "observes (newKnownDevice jobId d w now1)
        = (\<lambda>d'. mac_address d' = mac_address d \<and> host_name d' = host_name d)"
    by (simp add: fun_eq_iff)
  with find_distinct_key [OF assms] show ?thesis
    by (simp add: reconciledRow_def newKnownDevice_def touchRow_def)
qed

lemma applyRetentionPolicy_keeps:
  "\<exists>keep. known_devices (applyRetentionPolicy jobId job now db) = filter keep (known_devices db)
          \<and> (\<forall>r. kd_status r \<noteq> ''inactive'' \<longrightarrow> keep r)"
proof -
  have "known_devices db = filter (\<lambda>r. True) (known_devices db) \<and> (\<forall>r. kd_status r \<noteq> ''inactive'' \<longrightarrow> True)"
    by simp
  then show ?thesis
    unfolding applyRetentionPolicy_def
    by (auto simp del: filter_True)
qed

lemma sameDevice_reconciledRow [simp]:
  "sameDevice j m h (reconciledRow j' ps now r) = sameDevice j m h r"
  by (simp add: sameDevice_def)

section \<open>The claims\<close>

text \<open>
  C1, as the code has it. When \<^verbatim>\<open>_processDevices\<close> returns, \<^verbatim>\<open>devicesFound\<close> is the
  number of devices in the batch (\<^verbatim>\<open>devices.length\<close>); for a batch in which no key
  occurs twice this is the number of its distinct keys.
\<close>

theorem devicesFound_is_length_of_batch:
  assumes ok: "processDevices jobId devices whitelist job now db = (Inr res, db')"
  shows "devicesFound res = length devices
         \<and> (distinct (deviceKeys devices) \<longrightarrow> devicesFound res = card (set (deviceKeys devices)))"
proof -
  from ok have found: "devicesFound res = length devices"
    by (auto simp: processDevices_def reconcile_def split: sum.splits prod.splits)
  have "card (set (deviceKeys devices)) = length devices" if "distinct (deviceKeys devices)"
    using distinct_card [OF that] by (simp add: deviceKeys_def)
  with found show ?thesis by simp
qed

theorem devicesFound_is_length_of_batch_witness:
  "fst (processDevices ''job1'' [deviceA1, deviceB] {} exampleJob 1000 exampleDb)
       = Inr \<lparr>devicesFound = 2, newDevices = 2, warnings = 2\<rparr>
   \<and> distinct (deviceKeys [deviceA1, deviceB])
   \<and> card (set (deviceKeys [deviceA1, deviceB])) = 2"
proof -
  have res: "fst (processDevices ''job1'' [deviceA1, deviceB] {} exampleJob 1000 exampleDb)
               = Inr \<lparr>devicesFound = 2, newDevices = 2, warnings = 2\<rparr>"
    by code_simp
  then have ok: "processDevices ''job1'' [deviceA1, deviceB] {} exampleJob 1000 exampleDb
               = (Inr \<lparr>devicesFound = 2, newDevices = 2, warnings = 2\<rparr>,
                  snd (processDevices ''job1'' [deviceA1, deviceB] {} exampleJob 1000 exampleDb))"
    by (simp add: prod_eq_iff)
  have dist: "distinct (deviceKeys [deviceA1, deviceB])"
    by (simp add: deviceKeys_def deviceA1_def deviceB_def)
  from devicesFound_is_length_of_batch [OF ok] res dist show ?thesis by simp
qed

text \<open>
  The batch of \<open>deviceA1\<close> and \<open>deviceA2\<close> has one distinct key, and
  \<^verbatim>\<open>_processDevices\<close> returns no counter for it: the call throws.
\<close>

theorem devicesFound_not_returned_for_repeated_key:
  "card (set (deviceKeys [deviceA1, deviceA2])) = 1
   \<and> fst (processDevices ''job1'' [deviceA1, deviceA2] {} exampleJob 1000 exampleDb)
       = Inl (SqliteError uniqueFailed)"
  by (rule conjI; code_simp)

text \<open>
  C2. The output \<open>twoVlans\<close> parses to two devices of one key. On an empty inventory
  \<^verbatim>\<open>_processDevices\<close> inserts the first, does not find the key in its map for the second
  and inserts again: the statement throws on the UNIQUE constraint, and the row of the
  first device is what stays. When the key is in the inventory (here with the values of
  \<open>deviceA2\<close> from a run at time 100), the first device updates the row and takes
  the key out of the map, and the second throws in the same way: the row is left with
  the values of the first device.
\<close>

theorem repeated_key_in_batch_throws:
  "parseMacAddressTable twoVlans ''SwitchA'' ''2024-05-01T10:00:00.000Z'' = [deviceA1, deviceA2]
   \<and> fst (processDevices ''job1'' [deviceA1, deviceA2] {} exampleJob 1000 emptyDb)
       = Inl (SqliteError uniqueFailed)
   \<and> known_devices (snd (processDevices ''job1'' [deviceA1, deviceA2] {} exampleJob 1000 emptyDb))
       = [newKnownDevice ''job1'' deviceA1 False 1000]
   \<and> fst (processDevices ''job1'' [deviceA1, deviceA2] {} exampleJob 1000
             (emptyDb\<lparr>known_devices := [newKnownDevice ''job1'' deviceA2 False 100]\<rparr>))
       = Inl (SqliteError uniqueFailed)
   \<and> known_devices (snd (processDevices ''job1'' [deviceA1, deviceA2] {} exampleJob 1000
             (emptyDb\<lparr>known_devices := [newKnownDevice ''job1'' deviceA2 False 100]\<rparr>)))
       = [(newKnownDevice ''job1'' deviceA1 False 100)\<lparr>kd_last_seen := 1000\<rparr>]"
  by (intro conjI; code_simp)

text \<open>
  C3, as the code has it. No statement of a run is rolled back. When the
  \<^verbatim>\<open>INSERT INTO known_devices\<close> for a device of the batch throws (the UNIQUE constraint
  of the table), \<^verbatim>\<open>runJob\<close> throws that error and takes the job out of the registry,
  and the database is left as follows. The inventory holds what the loop has written
  for the devices before: the rows of the job that one of them observes are updated,
  a row is inserted for each of them that was new, every other row is as it was before
  the run; so no row has become inactive and none has been deleted. The history has one
  entry more for each of these devices, the notifications that were there are kept, the
  run is recorded as failed with the message of the error, and the job is active.
\<close>

theorem storage_error_keeps_earlier_writes:
  assumes free: "map_of runningJobs jobId = None"
    and job: "find (\<lambda>j. j_id j = jobId \<and> j_status j = ''active'') (jobs db) = Some job"
    and hosts: "enabledHosts jobId db \<noteq> []"
    and run: "createRun (env_uuid env) jobId (length (enabledHosts jobId db)) (env_now env) db = Inr db1"
    and wf: "wellFormed jobId before db"
    and scanned: "scanHosts env (enabledHosts jobId db) ([], [], 0) = (before @ device # rest, debugInfo, Suc n)"
    and loop: "processLoop jobId (jobWhitelist jobId db) job (env_now env) before
                 (initialState jobId (updateJob ''running'' jobId (env_now env) db1)) = Inr s"
    and thrown: "processDevice jobId (jobWhitelist jobId db) job (env_now env) device s = Inl (e, dbe)"
  shows "\<exists>db'. runJob env jobId runningJobs db =
                  (Inl (SqliteError uniqueFailed), AList.delete jobId runningJobs, db')
           \<and> known_devices db' =
               map (loopRow jobId before (env_now env)) (known_devices db) @
               map (\<lambda>d. newKnownDevice jobId d (mac_address d \<in> jobWhitelist jobId db) (env_now env))
                   (filter (isNewDevice jobId db) before)
           \<and> (\<forall>i<length (known_devices db).
                 kd_status (known_devices db' ! i) = ''inactive''
                 \<longrightarrow> kd_status (known_devices db ! i) = ''inactive'')
           \<and> device_history db' = device_history db @
               map (\<lambda>d. \<lparr>dh_job_id = jobId, dh_mac_address = mac_address d,
                          dh_host_name = host_name d, dh_interface_name = interface_name d,
                          dh_vlan_id = vlan_id d, dh_detected_at = env_now env\<rparr>) before
           \<and> (\<exists>ns. notifications db' = notifications db @ ns)
           \<and> job_runs db' = job_runs db @
                [\<lparr>jr_id = env_uuid env, jr_job_id = jobId, jr_status = ''failed'',
                  jr_hosts_scanned = length (enabledHosts jobId db), jr_devices_found = 0,
                  jr_new_devices = 0, jr_warnings = 0, jr_started_at = env_now env,
                  jr_finished_at = Some (env_now env), jr_duration = None,
                  jr_error_message = Some uniqueFailed, jr_debug_info = None\<rparr>]
           \<and> jobs db' = map (\<lambda>j. if j_id j = jobId
                                   then j\<lparr>j_status := ''active'', j_last_run := Some (env_now env),
                                          j_updated_at := env_now env\<rparr>
                                   else j) (jobs db)"
proof -
  let ?now = "env_now env"
  let ?wl = "jobWhitelist jobId db"
  let ?new = "\<lparr>jr_id = env_uuid env, jr_job_id = jobId, jr_status = ''running'',
               jr_hosts_scanned = length (enabledHosts jobId db), jr_devices_found = 0,
               jr_new_devices = 0, jr_warnings = 0, jr_started_at = ?now,
               jr_finished_at = None, jr_duration = None, jr_error_message = None,
               jr_debug_info = None\<rparr>"
  let ?db2 = "updateJob ''running'' jobId ?now db1"
  from run have fresh: "\<not> list_ex (\<lambda>r. jr_id r = env_uuid env) (job_runs db)"
    and db1: "db1 = db\<lparr>job_runs := job_runs db @ [?new]\<rparr>"
    by (auto simp: createRun_def split: if_splits)
  have kd2: "known_devices ?db2 = known_devices db"
    and dh2: "device_history ?db2 = device_history db"
    and n2: "notifications ?db2 = notifications db"
    and jr2: "job_runs ?db2 = job_runs db @ [?new]"
    and j2: "jobs ?db2 = map (\<lambda>j. if j_id j = jobId
                                   then j\<lparr>j_status := ''running'', j_last_run := Some ?now,
                                          j_updated_at := ?now\<rparr>
                                   else j) (jobs db)"
    by (simp_all add: db1 updateJob_def)
  from wf have wf2: "wellFormed jobId before ?db2"
    by (simp add: wellFormed_def kd2)
  have new2: "isNewDevice jobId ?db2 = isNewDevice jobId db"
    by (simp add: isNewDevice_def fun_eq_iff kd2)
  from processLoop_inv [OF wf2 loop]
  have kds: "known_devices (st_db s) =
               map (loopRow jobId before ?now) (known_devices db) @
               map (\<lambda>d. newKnownDevice jobId d (mac_address d \<in> ?wl) ?now)
                   (filter (isNewDevice jobId db) before)"
    by (simp add: loopInv_def kd2 new2)
  from processLoop_other_tables [OF loop]
  have dhs: "device_history (st_db s) = device_history db @
               map (\<lambda>d. \<lparr>dh_job_id = jobId, dh_mac_address = mac_address d,
                          dh_host_name = host_name d, dh_interface_name = interface_name d,
                          dh_vlan_id = vlan_id d, dh_detected_at = ?now\<rparr>) before"
    and ns: "\<exists>ns. notifications (st_db s) = notifications db @ ns"
    and js: "jobs (st_db s) = jobs ?db2"
    and jrs: "job_runs (st_db s) = job_runs db @ [?new]"
    by (simp_all add: initialState_def dh2 n2 jr2)
  from processDevice_throws [OF thrown]
  have e: "e = SqliteError uniqueFailed" and dbe: "dbe = st_db s" by simp_all
  from loop thrown
  have "processLoop jobId ?wl job ?now (before @ device # rest) (initialState jobId ?db2)
          = Inl (e, st_db s)"
    by (simp add: processLoop_append dbe)
  then have "processDevices jobId (before @ device # rest) ?wl job ?now ?db2 = (Inl e, st_db s)"
    by (simp add: processDevices_def reconcile_def)
  with scanned
  have scan: "scanAndProcess env jobId (env_uuid env) job (enabledHosts jobId db) ?wl ?db2
          = (Inl e, st_db s)"
    by (simp add: scanAndProcess_def)
  let ?db' = "resetJob ''active'' jobId ?now (failRun (env_uuid env) uniqueFailed ?now (st_db s))"
  from runJob_started [OF free job hosts run] scan
  have result: "runJob env jobId runningJobs db =
                  (Inl (SqliteError uniqueFailed), AList.delete jobId runningJobs, ?db')"
    by (simp add: e)
  have kd': "known_devices ?db' =
               map (loopRow jobId before ?now) (known_devices db) @
               map (\<lambda>d. newKnownDevice jobId d (mac_address d \<in> ?wl) ?now)
                   (filter (isNewDevice jobId db) before)"
    by (simp add: resetJob_def failRun_def kds)
  have active: "\<forall>i<length (known_devices db).
                  kd_status (known_devices ?db' ! i) = ''inactive''
                  \<longrightarrow> kd_status (known_devices db ! i) = ''inactive''"
    unfolding kd' by (auto simp: nth_append dest: loopRow_status)
  have dh': "device_history ?db' = device_history db @
               map (\<lambda>d. \<lparr>dh_job_id = jobId, dh_mac_address = mac_address d,
                          dh_host_name = host_name d, dh_interface_name = interface_name d,
                          dh_vlan_id = vlan_id d, dh_detected_at = ?now\<rparr>) before"
    by (simp add: resetJob_def failRun_def dhs)
  have n': "\<exists>ns. notifications ?db' = notifications db @ ns"
    using ns by (simp add: resetJob_def failRun_def)
  from fresh have "map (\<lambda>r. if jr_id r = env_uuid env
                               then r\<lparr>jr_status := ''failed'', jr_finished_at := Some ?now,
                                      jr_error_message := Some uniqueFailed\<rparr>
                               else r) (job_runs db) = job_runs db"
    by (intro map_idI) (auto simp: list_ex_iff)
  then have jr': "job_runs ?db' = job_runs db @
                [\<lparr>jr_id = env_uuid env, jr_job_id = jobId, jr_status = ''failed'',
                  jr_hosts_scanned = length (enabledHosts jobId db), jr_devices_found = 0,
                  jr_new_devices = 0, jr_warnings = 0, jr_started_at = ?now,
                  jr_finished_at = Some ?now, jr_duration = None,
                  jr_error_message = Some uniqueFailed, jr_debug_info = None\<rparr>]"
    by (simp add: resetJob_def failRun_def jrs)
  have j': "jobs ?db' = map (\<lambda>j. if j_id j = jobId
                                   then j\<lparr>j_status := ''active'', j_last_run := Some ?now,
                                          j_updated_at := ?now\<rparr>
                                   else j) (jobs db)"
    by (simp add: resetJob_def failRun_def js j2 comp_def cong: map_cong)
  from result kd' active dh' n' jr' j' show ?thesis by blast
qed

text \<open>
  The output \<open>twoVlans\<close> from the one host of the job, with \<open>knownC\<close> in the
  inventory: the second line throws. The row of the first line is in the inventory, the
  row \<open>knownC\<close>, which the batch does not have, is as it was, the history has the
  entry of the first line, the run is failed and the job is active.
\<close>

theorem storage_error_keeps_earlier_writes_witness:
  "fst (runJob (answering twoVlans) ''job1'' [] exampleDb) = Inl (SqliteError uniqueFailed)
   \<and> known_devices (snd (snd (runJob (answering twoVlans) ''job1'' [] exampleDb)))
       = [knownC, newKnownDevice ''job1'' deviceA1 False 1000]
   \<and> device_history (snd (snd (runJob (answering twoVlans) ''job1'' [] exampleDb)))
       = [\<lparr>dh_job_id = ''job1'', dh_mac_address = ''aa:bb:cc:dd:ee:ff'', dh_host_name = ''SwitchA'',
           dh_interface_name = ''Gi0/1'', dh_vlan_id = Exact 10, dh_detected_at = 1000\<rparr>]
   \<and> map jr_status (job_runs (snd (snd (runJob (answering twoVlans) ''job1'' [] exampleDb))))
       = [''failed'']
   \<and> map jr_error_message (job_runs (snd (snd (runJob (answering twoVlans) ''job1'' [] exampleDb))))
       = [Some uniqueFailed]
   \<and> map j_status (jobs (snd (snd (runJob (answering twoVlans) ''job1'' [] exampleDb))))
       = [''active'']"
proof -
  let ?env = "answering twoVlans"
  let ?db1 = "projr (createRun ''run1'' ''job1'' 1 1000 exampleDb)"
  let ?s = "projr (processLoop ''job1'' {} exampleJob 1000 [deviceA1]
                     (initialState ''job1'' (updateJob ''running'' ''job1'' 1000 ?db1)))"
  have env: "env_uuid ?env = ''run1''" "env_now ?env = 1000" by (simp_all add: answering_def)
  have wl: "jobWhitelist ''job1'' exampleDb = {}" by code_simp
  have n: "length (enabledHosts ''job1'' exampleDb) = 1" by code_simp
  have free: "map_of [] ''job1'' = (None :: (string \<times> int) option)" by simp
  have job: "find (\<lambda>j. j_id j = ''job1'' \<and> j_status j = ''active'') (jobs exampleDb) = Some exampleJob"
    by code_simp
  have hosts: "enabledHosts ''job1'' exampleDb \<noteq> []" by code_simp
  have run: "createRun (env_uuid ?env) ''job1'' (length (enabledHosts ''job1'' exampleDb)) (env_now ?env)
               exampleDb = Inr ?db1"
    unfolding env n by code_simp
  have wf: "wellFormed ''job1'' [deviceA1] exampleDb" by code_simp
  have scanned: "scanHosts ?env (enabledHosts ''job1'' exampleDb) ([], [], 0)
                   = ([deviceA1] @ deviceA2 # [],
                      [StartingScan ''Core'' ''SwitchA'' 22, ScannedOk ''Core'' 2], Suc 0)"
    by code_simp
  have loop: "processLoop ''job1'' (jobWhitelist ''job1'' exampleDb) exampleJob (env_now ?env) [deviceA1]
                (initialState ''job1'' (updateJob ''running'' ''job1'' (env_now ?env) ?db1))
              = Inr ?s"
    unfolding env wl by code_simp
  have thrown: "processDevice ''job1'' (jobWhitelist ''job1'' exampleDb) exampleJob (env_now ?env) deviceA2 ?s
                  = Inl (SqliteError uniqueFailed, st_db ?s)"
    unfolding env wl by code_simp
  have rows: "map (loopRow ''job1'' [deviceA1] 1000) (known_devices exampleDb) @
              map (\<lambda>d. newKnownDevice ''job1'' d (mac_address d \<in> jobWhitelist ''job1'' exampleDb) 1000)
                  (filter (isNewDevice ''job1'' exampleDb) [deviceA1])
              = [knownC, newKnownDevice ''job1'' deviceA1 False 1000]"
    by code_simp
  from storage_error_keeps_earlier_writes [OF free job hosts run wf scanned loop thrown]
  obtain db' where
    result: "runJob ?env ''job1'' [] exampleDb
               = (Inl (SqliteError uniqueFailed), AList.delete ''job1'' [], db')"
    and kd: "known_devices db' =
               map (loopRow ''job1'' [deviceA1] (env_now ?env)) (known_devices exampleDb) @
               map (\<lambda>d. newKnownDevice ''job1'' d (mac_address d \<in> jobWhitelist ''job1'' exampleDb)
                          (env_now ?env))
                   (filter (isNewDevice ''job1'' exampleDb) [deviceA1])"
    and dh: "device_history db' = device_history exampleDb @
               map (\<lambda>d. \<lparr>dh_job_id = ''job1'', dh_mac_address = mac_address d,
                          dh_host_name = host_name d, dh_interface_name = interface_name d,
                          dh_vlan_id = vlan_id d, dh_detected_at = env_now ?env\<rparr>) [deviceA1]"
    and jr: "job_runs db' = job_runs exampleDb @
                [\<lparr>jr_id = env_uuid ?env, jr_job_id = ''job1'', jr_status = ''failed'',
                  jr_hosts_scanned = length (enabledHosts ''job1'' exampleDb), jr_devices_found = 0,
                  jr_new_devices = 0, jr_warnings = 0, jr_started_at = env_now ?env,
                  jr_finished_at = Some (env_now ?env), jr_duration = None,
                  jr_error_message = Some uniqueFailed, jr_debug_info = None\<rparr>]"
    and j: "jobs db' = map (\<lambda>j. if j_id j = ''job1''
                                   then j\<lparr>j_status := ''active'', j_last_run := Some (env_now ?env),
                                          j_updated_at := env_now ?env\<rparr>
                                   else j) (jobs exampleDb)"
    by blast
  from kd have kd': "known_devices db' = [knownC, newKnownDevice ''job1'' deviceA1 False 1000]"
    unfolding env rows .
  from dh have dh': "device_history db'
       = [\<lparr>dh_job_id = ''job1'', dh_mac_address = ''aa:bb:cc:dd:ee:ff'', dh_host_name = ''SwitchA'',
           dh_interface_name = ''Gi0/1'', dh_vlan_id = Exact 10, dh_detected_at = 1000\<rparr>]"
    by (simp add: env exampleDb_def emptyDb_def deviceA1_def)
  from jr have jr': "map jr_status (job_runs db') = [''failed'']"
    "map jr_error_message (job_runs db') = [Some uniqueFailed]"
    by (simp_all add: exampleDb_def emptyDb_def)
  from j have j': "map j_status (jobs db') = [''active'']"
    by (simp add: exampleDb_def emptyDb_def exampleJob_def)
  from result kd' dh' jr' j' show ?thesis by simp
qed

text \<open>
  A run is not all or nothing. In this run the reconciliation throws at the second line.
  The inventory is not as it was before (the row of the first line has been inserted),
  and it is not what a whole reconciliation gives either (the row \<open>knownC\<close>, which no
  line has, has not been marked inactive).
\<close>

theorem failed_run_keeps_part_of_the_batch:
  "fst (runJob (answering twoVlans) ''job1'' [] exampleDb) = Inl (SqliteError uniqueFailed)
   \<and> known_devices exampleDb = [knownC]
   \<and> known_devices (snd (snd (runJob (answering twoVlans) ''job1'' [] exampleDb)))
       = [knownC, newKnownDevice ''job1'' deviceA1 False 1000]
   \<and> kd_status knownC = ''active''
   \<and> map jr_status (job_runs (snd (snd (runJob (answering twoVlans) ''job1'' [] exampleDb))))
       = [''failed'']"
  by (intro conjI; code_simp)

text \<open>
  C4, as the code has it. Every device that \<^verbatim>\<open>parseMacAddressTable\<close> emits comes from a
  line of the output whose trimmed text has at least four parts. The first part begins,
  after an optional sign, with a decimal digit, and the VLAN of the device is what
  \<^verbatim>\<open>parseInt\<close> makes of it: not \<^verbatim>\<open>NaN\<close>, an integer of magnitude up to \<open>2^53\<close>
  when it is exact, and the rounded number of a larger integer otherwise. The second part
  matches the pattern of \<^verbatim>\<open>isValidMAC\<close>. The MAC address of the device is that part
  with the letters A to F (codes 65 to 70) replaced by a to f and every other character,
  the separators among them, as in the line; it matches the pattern and consists of the
  digits 0 to 9 (codes 48 to 57), the letters a to f (97 to 102), colons (58) and
  hyphens (45).
\<close>

theorem parser_emits_valid_lowercase:
  assumes "d \<in> set (parseMacAddressTable output hostName detectedAt)"
  shows "\<exists>line p0 p1 p2 p3 rest sign digits tail.
           line \<in> set (splitLines output)
           \<and> splitWhiteSpace (trim line) = p0 # p1 # p2 # p3 # rest
           \<and> dropWhile isWhiteSpace p0 = sign @ digits @ tail
           \<and> (sign = [] \<or> sign = ''-'' \<or> sign = ''+'')
           \<and> digits \<noteq> [] \<and> list_all isDigit digits
           \<and> vlan_id d = parseInt p0
           \<and> (case vlan_id d of
                 NaN \<Rightarrow> False
               | Exact n \<Rightarrow> \<bar>n\<bar> \<le> 9007199254740992
               | Rounded m \<Rightarrow> 9007199254740992 < \<bar>m\<bar>)
           \<and> isValidMAC p1
           \<and> mac_address d =
               map (\<lambda>c. if 65 \<le> (of_char c :: nat) \<and> (of_char c :: nat) \<le> 70
                        then char_of (of_char c + 32 :: nat) else c) p1
           \<and> isValidMAC (mac_address d)
           \<and> (\<forall>c\<in>set (mac_address d).
                 (48 \<le> (of_char c :: nat) \<and> (of_char c :: nat) \<le> 57)
                 \<or> (97 \<le> (of_char c :: nat) \<and> (of_char c :: nat) \<le> 102)
                 \<or> (of_char c :: nat) = 58 \<or> (of_char c :: nat) = 45)"
proof -
  from assms obtain line where line: "line \<in> set (splitLines output)"
    and some: "parseLine hostName detectedAt line = Some d"
    unfolding parseMacAddressTable_def by (blast dest: parseLines_mem)
  from parseLine_Some [OF some] obtain p0 p1 p2 p3 rest where
    parts: "splitWhiteSpace (trim line) = p0 # p1 # p2 # p3 # rest"
    and vlan: "vlan_id d = parseInt p0" "parseInt p0 \<noteq> NaN"
    and valid: "isValidMAC p1" and mac: "mac_address d = toLowerCase p1"
    by blast
  from parseInt_digits [OF vlan(2)] obtain sign digits tail where
    digits: "dropWhile isWhiteSpace p0 = sign @ digits @ tail"
      "sign = [] \<or> sign = ''-'' \<or> sign = ''+''" "digits \<noteq> []" "list_all isDigit digits"
    by blast
  from parseInt_range [of p0] vlan
  have range: "(case vlan_id d of
                  NaN \<Rightarrow> False
                | Exact n \<Rightarrow> \<bar>n\<bar> \<le> 9007199254740992
                | Rounded m \<Rightarrow> 9007199254740992 < \<bar>m\<bar>)"
    by (cases "parseInt p0") simp_all
  have lower: "mac_address d =
               map (\<lambda>c. if 65 \<le> (of_char c :: nat) \<and> (of_char c :: nat) \<le> 70
                        then char_of (of_char c + 32 :: nat) else c) p1"
    unfolding mac by (rule toLowerCase_valid [OF valid])
  have valid': "isValidMAC (mac_address d)"
    by (simp add: mac isValidMAC_toLowerCase valid)
  have codes: "\<forall>c\<in>set (mac_address d).
                 (48 \<le> (of_char c :: nat) \<and> (of_char c :: nat) \<le> 57)
                 \<or> (97 \<le> (of_char c :: nat) \<and> (of_char c :: nat) \<le> 102)
                 \<or> (of_char c :: nat) = 58 \<or> (of_char c :: nat) = 45"
    unfolding mac using toLowerCase_codes [OF valid] by blast
  from line parts digits vlan(1) range valid lower valid' codes show ?thesis by blast
qed

text \<open>
  A line with the address in capital letters gives the device \<open>deviceA1\<close>, whose
  address is in small letters.
\<close>

theorem parser_emits_valid_lowercase_witness:
  "deviceA1 \<in> set (parseMacAddressTable ''10 AA:BB:CC:DD:EE:FF dynamic Gi0/1'' ''SwitchA''
                      ''2024-05-01T10:00:00.000Z'')
   \<and> mac_address deviceA1 = ''aa:bb:cc:dd:ee:ff''
   \<and> vlan_id deviceA1 = Exact 10
   \<and> isValidMAC (mac_address deviceA1)
   \<and> list_all (\<lambda>c. (48 \<le> (of_char c :: nat) \<and> (of_char c :: nat) \<le> 57)
                   \<or> (97 \<le> (of_char c :: nat) \<and> (of_char c :: nat) \<le> 102)
                   \<or> (of_char c :: nat) = 58 \<or> (of_char c :: nat) = 45)
        (mac_address deviceA1)"
proof -
  have "parseMacAddressTable ''10 AA:BB:CC:DD:EE:FF dynamic Gi0/1'' ''SwitchA''
          ''2024-05-01T10:00:00.000Z'' = [deviceA1]"
    by code_simp
  then have emitted: "deviceA1 \<in> set (parseMacAddressTable ''10 AA:BB:CC:DD:EE:FF dynamic Gi0/1''
                                        ''SwitchA'' ''2024-05-01T10:00:00.000Z'')"
    by simp
  have fields: "mac_address deviceA1 = ''aa:bb:cc:dd:ee:ff''" "vlan_id deviceA1 = Exact 10"
    by (simp_all add: deviceA1_def)
  from parser_emits_valid_lowercase [OF emitted] emitted fields show ?thesis
    unfolding list_all_iff by blast
qed

text \<open>
  A line with hyphens between the groups is accepted and its address is emitted with the
  hyphens, in small letters; \<^verbatim>\<open>parseInt\<close> reads the VLAN 10 from the part
  \<^verbatim>\<open>10abc\<close>; and the VLAN of the part \<^verbatim>\<open>9007199254740993\<close> is a rounded number.
\<close>

theorem parser_keeps_hyphens:
  "map mac_address (parseMacAddressTable ''10 AA-BB-CC-DD-EE-FF dynamic Gi0/1'' ''SwitchA'' [])
     = [''aa-bb-cc-dd-ee-ff'']
   \<and> map vlan_id (parseMacAddressTable ''10abc aa:bb:cc:dd:ee:ff dynamic Gi0/1'' ''SwitchA'' [])
     = [Exact 10]
   \<and> map vlan_id (parseMacAddressTable ''9007199254740993 aa:bb:cc:dd:ee:ff dynamic Gi0/1''
                     ''SwitchA'' [])
     = [Rounded 9007199254740993]"
  by (intro conjI; code_simp)

text \<open>
  C5. When the job is there, active and not running, has enabled hosts, and every one of
  them fails its scan, \<^verbatim>\<open>runJob\<close> throws \<^verbatim>\<open>'Failed to scan any hosts'\<close> and leaves the
  registry without the job. The tables \<^verbatim>\<open>known_devices\<close>, \<^verbatim>\<open>device_history\<close> and
  \<^verbatim>\<open>notifications\<close> are as before the call; the run of the call is recorded with
  status \<^verbatim>\<open>'failed'\<close> and the message; the job has the status \<^verbatim>\<open>'active'\<close>.
\<close>

theorem all_hosts_failed_leaves_inventory:
  assumes free: "map_of runningJobs jobId = None"
    and job: "find (\<lambda>j. j_id j = jobId \<and> j_status j = ''active'') (jobs db) = Some job"
    and hosts: "enabledHosts jobId db \<noteq> []"
    and fresh: "\<not> list_ex (\<lambda>r. jr_id r = env_uuid env) (job_runs db)"
    and failed: "list_all (hostFails env) (enabledHosts jobId db)"
  shows "\<exists>db'. runJob env jobId runningJobs db =
                  (Inl (JsError ''Failed to scan any hosts''), AList.delete jobId runningJobs, db')
           \<and> known_devices db' = known_devices db
           \<and> device_history db' = device_history db
           \<and> notifications db' = notifications db
           \<and> job_runs db' = job_runs db @
                [\<lparr>jr_id = env_uuid env, jr_job_id = jobId, jr_status = ''failed'',
                  jr_hosts_scanned = length (enabledHosts jobId db), jr_devices_found = 0,
                  jr_new_devices = 0, jr_warnings = 0, jr_started_at = env_now env,
                  jr_finished_at = Some (env_now env), jr_duration = None,
                  jr_error_message = Some ''Failed to scan any hosts'', jr_debug_info = None\<rparr>]
           \<and> jobs db' = map (\<lambda>j. if j_id j = jobId
                                   then j\<lparr>j_status := ''active'', j_last_run := Some (env_now env),
                                          j_updated_at := env_now env\<rparr>
                                   else j) (jobs db)"
proof -
  let ?new = "\<lparr>jr_id = env_uuid env, jr_job_id = jobId, jr_status = ''running'',
               jr_hosts_scanned = length (enabledHosts jobId db), jr_devices_found = 0,
               jr_new_devices = 0, jr_warnings = 0, jr_started_at = env_now env,
               jr_finished_at = None, jr_duration = None, jr_error_message = None,
               jr_debug_info = None\<rparr>"
  let ?db1 = "db\<lparr>job_runs := job_runs db @ [?new]\<rparr>"
  let ?db2 = "updateJob ''running'' jobId (env_now env) ?db1"
  from fresh have run: "createRun (env_uuid env) jobId (length (enabledHosts jobId db)) (env_now env) db
                          = Inr ?db1"
    by (simp add: createRun_def)
  from scanHosts_all_fail [OF failed, of "[]" "[]" 0]
  have scan: "scanAndProcess env jobId (env_uuid env) job (enabledHosts jobId db)
                (jobWhitelist jobId db) ?db2 = (Inl (JsError ''Failed to scan any hosts''), ?db2)"
    by (auto simp: scanAndProcess_def)
  let ?db' = "resetJob ''active'' jobId (env_now env)
                (failRun (env_uuid env) ''Failed to scan any hosts'' (env_now env) ?db2)"
  from runJob_started [OF free job hosts run] scan
  have "runJob env jobId runningJobs db =
          (Inl (JsError ''Failed to scan any hosts''), AList.delete jobId runningJobs, ?db')"
    by simp
  moreover have "known_devices ?db' = known_devices db" "device_history ?db' = device_history db"
    "notifications ?db' = notifications db"
    by (simp_all add: resetJob_def failRun_def updateJob_def)
  moreover from fresh have "map (\<lambda>r. if jr_id r = env_uuid env
                               then r\<lparr>jr_status := ''failed'', jr_finished_at := Some (env_now env),
                                      jr_error_message := Some ''Failed to scan any hosts''\<rparr>
                               else r) (job_runs db) = job_runs db"
    by (intro map_idI) (auto simp: list_ex_iff)
  then have "job_runs ?db' = job_runs db @
                [\<lparr>jr_id = env_uuid env, jr_job_id = jobId, jr_status = ''failed'',
                  jr_hosts_scanned = length (enabledHosts jobId db), jr_devices_found = 0,
                  jr_new_devices = 0, jr_warnings = 0, jr_started_at = env_now env,
                  jr_finished_at = Some (env_now env), jr_duration = None,
                  jr_error_message = Some ''Failed to scan any hosts'', jr_debug_info = None\<rparr>]"
    by (simp add: resetJob_def failRun_def updateJob_def)
  moreover have "jobs ?db' = map (\<lambda>j. if j_id j = jobId
                                   then j\<lparr>j_status := ''active'', j_last_run := Some (env_now env),
                                          j_updated_at := env_now env\<rparr>
                                   else j) (jobs db)"
    by (simp add: resetJob_def failRun_def updateJob_def comp_def cong: map_cong)
  ultimately show ?thesis by blast
qed

theorem all_hosts_failed_leaves_inventory_witness:
  "map_of [] ''job1'' = (None :: (string \<times> int) option)
   \<and> find (\<lambda>j. j_id j = ''job1'' \<and> j_status j = ''active'') (jobs exampleDb) = Some exampleJob
   \<and> enabledHosts ''job1'' exampleDb \<noteq> []
   \<and> \<not> list_ex (\<lambda>r. jr_id r = env_uuid refusing) (job_runs exampleDb)
   \<and> list_all (hostFails refusing) (enabledHosts ''job1'' exampleDb)
   \<and> fst (runJob refusing ''job1'' [] exampleDb) = Inl (JsError ''Failed to scan any hosts'')
   \<and> known_devices (snd (snd (runJob refusing ''job1'' [] exampleDb))) = [knownC]
   \<and> map jr_status (job_runs (snd (snd (runJob refusing ''job1'' [] exampleDb)))) = [''failed'']
   \<and> map j_status (jobs (snd (snd (runJob refusing ''job1'' [] exampleDb)))) = [''active'']"
proof -
  have free: "map_of [] ''job1'' = (None :: (string \<times> int) option)" by simp
  have job: "find (\<lambda>j. j_id j = ''job1'' \<and> j_status j = ''active'') (jobs exampleDb) = Some exampleJob"
    by code_simp
  have hosts: "enabledHosts ''job1'' exampleDb \<noteq> []" by code_simp
  have fresh: "\<not> list_ex (\<lambda>r. jr_id r = env_uuid refusing) (job_runs exampleDb)" by code_simp
  have failed: "list_all (hostFails refusing) (enabledHosts ''job1'' exampleDb)" by code_simp
  from all_hosts_failed_leaves_inventory [OF free job hosts fresh failed]
  obtain db' where "runJob refusing ''job1'' [] exampleDb =
                  (Inl (JsError ''Failed to scan any hosts''), AList.delete ''job1'' [], db')"
    and "known_devices db' = known_devices exampleDb"
    and "job_runs db' = job_runs exampleDb @
                [\<lparr>jr_id = env_uuid refusing, jr_job_id = ''job1'', jr_status = ''failed'',
                  jr_hosts_scanned = length (enabledHosts ''job1'' exampleDb), jr_devices_found = 0,
                  jr_new_devices = 0, jr_warnings = 0, jr_started_at = env_now refusing,
                  jr_finished_at = Some (env_now refusing), jr_duration = None,
                  jr_error_message = Some ''Failed to scan any hosts'', jr_debug_info = None\<rparr>]"
    and "jobs db' = map (\<lambda>j. if j_id j = ''job1''
                                   then j\<lparr>j_status := ''active'', j_last_run := Some (env_now refusing),
                                          j_updated_at := env_now refusing\<rparr>
                                   else j) (jobs exampleDb)"
    by blast
  with job hosts fresh failed show ?thesis
    by (simp add: exampleDb_def emptyDb_def exampleJob_def)
qed

text \<open>
  C6. When the reconciling part of \<^verbatim>\<open>_processDevices\<close> (the function up to the call of
  \<^verbatim>\<open>_applyRetentionPolicy\<close>) has gone through a batch, with MAC addresses as the parser
  emits them in the batch and in the rows of the job, every row that the job had before
  is still in the table at its place, with its job, MAC address and host name. Its
  status is \<^verbatim>\<open>'inactive'\<close> exactly when no device of the batch has its key, and then
  nothing but the status differs from the row as it was.
\<close>

theorem unseen_device_becomes_inactive:
  assumes wf: "wellFormed jobId devices db"
    and ok: "reconcile jobId devices whitelist job now db = (Inr res, db')"
    and i: "i < length (known_devices db)"
    and mine: "kd_job_id (known_devices db ! i) = jobId"
  shows "i < length (known_devices db')
         \<and> kd_job_id (known_devices db' ! i) = jobId
         \<and> kd_mac_address (known_devices db' ! i) = kd_mac_address (known_devices db ! i)
         \<and> kd_host_name (known_devices db' ! i) = kd_host_name (known_devices db ! i)
         \<and> (kd_status (known_devices db' ! i) = ''inactive''
              \<longleftrightarrow> (kd_mac_address (known_devices db ! i), kd_host_name (known_devices db ! i))
                    \<notin> set (deviceKeys devices))
         \<and> ((kd_mac_address (known_devices db ! i), kd_host_name (known_devices db ! i))
                \<notin> set (deviceKeys devices)
             \<longrightarrow> known_devices db' ! i = (known_devices db ! i)\<lparr>kd_status := ''inactive''\<rparr>)"
proof -
  let ?r = "known_devices db ! i"
  from reconcile_rows(1) [OF wf ok] i
  have len: "i < length (known_devices db')"
    and row: "known_devices db' ! i = reconciledRow jobId devices now ?r"
    by (simp_all add: nth_append)
  from len mine show ?thesis
    unfolding row
    by (simp add: reconciledRow_status reconciledRow_unseen)
qed

theorem unseen_device_becomes_inactive_witness:
  "wellFormed ''job1'' [deviceA1] (exampleDb\<lparr>known_devices := [knownC, newKnownDevice ''job1'' deviceA2 False 100\<lparr>kd_status := ''inactive''\<rparr>]\<rparr>)
   \<and> fst (reconcile ''job1'' [deviceA1] {} exampleJob 1000
            (exampleDb\<lparr>known_devices := [knownC, newKnownDevice ''job1'' deviceA2 False 100\<lparr>kd_status := ''inactive''\<rparr>]\<rparr>))
       = Inr \<lparr>devicesFound = 1, newDevices = 0, warnings = 0\<rparr>
   \<and> known_devices (snd (reconcile ''job1'' [deviceA1] {} exampleJob 1000
            (exampleDb\<lparr>known_devices := [knownC, newKnownDevice ''job1'' deviceA2 False 100\<lparr>kd_status := ''inactive''\<rparr>]\<rparr>))) ! 0
       = knownC\<lparr>kd_status := ''inactive''\<rparr>
   \<and> kd_status (known_devices (snd (reconcile ''job1'' [deviceA1] {} exampleJob 1000
            (exampleDb\<lparr>known_devices := [knownC, newKnownDevice ''job1'' deviceA2 False 100\<lparr>kd_status := ''inactive''\<rparr>]\<rparr>))) ! 1)
       \<noteq> ''inactive''"
proof -
  let ?db = "exampleDb\<lparr>known_devices := [knownC, newKnownDevice ''job1'' deviceA2 False 100\<lparr>kd_status := ''inactive''\<rparr>]\<rparr>"
  have wf: "wellFormed ''job1'' [deviceA1] ?db" by code_simp
  have res: "fst (reconcile ''job1'' [deviceA1] {} exampleJob 1000 ?db)
               = Inr \<lparr>devicesFound = 1, newDevices = 0, warnings = 0\<rparr>"
    by code_simp
  then have ok: "reconcile ''job1'' [deviceA1] {} exampleJob 1000 ?db
               = (Inr \<lparr>devicesFound = 1, newDevices = 0, warnings = 0\<rparr>,
                  snd (reconcile ''job1'' [deviceA1] {} exampleJob 1000 ?db))"
    by (simp add: prod_eq_iff)
  have i0: "0 < length (known_devices ?db)" and i1: "1 < length (known_devices ?db)"
    by simp_all
  have m0: "kd_job_id (known_devices ?db ! 0) = ''job1''"
    and m1: "kd_job_id (known_devices ?db ! 1) = ''job1''"
    by (simp_all add: knownC_def newKnownDevice_def)
  have k0: "(kd_mac_address (known_devices ?db ! 0), kd_host_name (known_devices ?db ! 0))
              \<notin> set (deviceKeys [deviceA1])"
    by (simp add: knownC_def deviceKeys_def deviceA1_def)
  have k1: "(kd_mac_address (known_devices ?db ! 1), kd_host_name (known_devices ?db ! 1))
              \<in> set (deviceKeys [deviceA1])"
    by (simp add: newKnownDevice_def deviceKeys_def deviceA1_def deviceA2_def)
  from unseen_device_becomes_inactive [OF wf ok i0 m0] k0
  have "known_devices (snd (reconcile ''job1'' [deviceA1] {} exampleJob 1000 ?db)) ! 0
          = knownC\<lparr>kd_status := ''inactive''\<rparr>"
    by simp
  moreover from unseen_device_becomes_inactive [OF wf ok i1 m1] k1
  have "kd_status (known_devices (snd (reconcile ''job1'' [deviceA1] {} exampleJob 1000 ?db)) ! 1)
          \<noteq> ''inactive''"
    by simp
  ultimately show ?thesis using wf res by simp
qed

text \<open>
  C7. After a call of \<^verbatim>\<open>_processDevices\<close> that has completed for a batch (MAC
  addresses as the parser emits them, in the batch and in the rows of the job), the
  reconciling part of the function (up to the call of \<^verbatim>\<open>_applyRetentionPolicy\<close>) run
  again for the same batch, at any time and whatever the whitelist and the toggles of
  the job are then, completes, counts no new device, and changes nothing in
  the table \<^verbatim>\<open>known_devices\<close> but \<^verbatim>\<open>last_seen\<close> of the rows of the job whose key is
  in the batch.
\<close>

theorem second_pass_changes_last_seen_only:
  assumes wf: "wellFormed jobId devices db"
    and first: "processDevices jobId devices whitelist job now db = (Inr res, db1)"
  shows "\<exists>res2 db2. reconcile jobId devices whitelist2 job2 now2 db1 = (Inr res2, db2)
           \<and> newDevices res2 = 0
           \<and> known_devices db2 =
               map (\<lambda>r. if kd_job_id r = jobId
                            \<and> (kd_mac_address r, kd_host_name r) \<in> set (deviceKeys devices)
                         then r\<lparr>kd_last_seen := now2\<rparr> else r)
                   (known_devices db1)"
proof -
  let ?new = "\<lambda>d. newKnownDevice jobId d (mac_address d \<in> whitelist) now"
  let ?stamp = "\<lambda>r. if kd_job_id r = jobId
                          \<and> (kd_mac_address r, kd_host_name r) \<in> set (deviceKeys devices)
                       then r\<lparr>kd_last_seen := now2\<rparr> else r"
  from first obtain db0 where rec: "reconcile jobId devices whitelist job now db = (Inr res, db0)"
    and db1: "db1 = applyRetentionPolicy jobId job now db0"
    by (auto simp: processDevices_def split: prod.splits sum.splits)
  from reconcile_rows(1) [OF wf rec]
  have kd0: "known_devices db0 =
               map (reconciledRow jobId devices now) (known_devices db) @
               map ?new (filter (isNewDevice jobId db) devices)" .
  from rec have "\<exists>s. processLoop jobId whitelist job now devices (initialState jobId db) = Inr s"
    by (auto simp: reconcile_def split: sum.splits prod.splits)
  with processLoop_success_iff [OF wf] have dist: "distinct (deviceKeys devices)" by blast
  from applyRetentionPolicy_keeps [of jobId job now db0] obtain keep where
    kd1: "known_devices db1 = filter keep (known_devices db0)"
    and keep: "\<And>r. kd_status r \<noteq> ''inactive'' \<Longrightarrow> keep r"
    unfolding db1 by blast
  have rows1: "(\<exists>r0\<in>set (known_devices db). r = reconciledRow jobId devices now r0)
               \<or> (\<exists>d\<in>set devices. r = ?new d)"
    if "r \<in> set (known_devices db1)" for r
    using that unfolding kd1 kd0 by auto
  have wf1: "wellFormed jobId devices db1"
  proof -
    have "isValidMAC (kd_mac_address r)" if r: "r \<in> set (known_devices db1)" and j: "kd_job_id r = jobId" for r
      using rows1 [OF r]
    proof (elim disjE bexE)
      fix r0 assume r0: "r0 \<in> set (known_devices db)" and eq: "r = reconciledRow jobId devices now r0"
      from eq j have "kd_job_id r0 = jobId" by simp
      from wellFormed_row [OF wf r0 this] show ?thesis by (simp add: eq)
    next
      fix d assume "d \<in> set devices" "r = ?new d"
      with wellFormed_device [OF wf] show ?thesis by (simp add: newKnownDevice_def)
    qed
    with wf show ?thesis by (auto simp: wellFormed_def list_all_iff)
  qed
  from processLoop_success_iff [OF wf1, of whitelist2 job2 now2] dist obtain s2 where
    loop2: "processLoop jobId whitelist2 job2 now2 devices (initialState jobId db1) = Inr s2"
    by blast
  define res2 where "res2 = \<lparr>devicesFound = length devices, newDevices = st_newDevices s2,
                               warnings = st_warnings s2\<rparr>"
  define db2 where "db2 = markNotSeen jobId (st_knownDevices s2) (st_db s2)"
  from loop2 have ok2: "reconcile jobId devices whitelist2 job2 now2 db1 = (Inr res2, db2)"
    by (simp add: reconcile_def res2_def db2_def)
  have present: "\<not> isNewDevice jobId db1 d" if d: "d \<in> set devices" for d
  proof (cases "isNewDevice jobId db d")
    case True
    with d have "?new d \<in> set (known_devices db0)" by (simp add: kd0)
    moreover have "keep (?new d)" by (rule keep) (simp add: newKnownDevice_def)
    ultimately have "?new d \<in> set (known_devices db1)" by (simp add: kd1)
    then show ?thesis by (force simp: isNewDevice_def list_ex_iff)
  next
    case False
    then obtain r0 where r0: "r0 \<in> set (known_devices db)"
      and same: "sameDevice jobId (mac_address d) (host_name d) r0"
      by (auto simp: isNewDevice_def list_ex_iff)
    from same d have "(kd_mac_address r0, kd_host_name r0) \<in> set (deviceKeys devices)"
      by (force simp: sameDevice_def deviceKeys_def)
    with same have "kd_status (reconciledRow jobId devices now r0) \<noteq> ''inactive''"
      by (simp add: reconciledRow_status sameDevice_def)
    then have "keep (reconciledRow jobId devices now r0)" by (rule keep)
    with r0 have "reconciledRow jobId devices now r0 \<in> set (known_devices db1)"
      by (simp add: kd1 kd0)
    moreover from same have "sameDevice jobId (mac_address d) (host_name d) (reconciledRow jobId devices now r0)"
      by simp
    ultimately show ?thesis unfolding isNewDevice_def list_ex_iff by blast
  qed
  then have none: "filter (isNewDevice jobId db1) devices = []"
    by (simp add: filter_empty_conv)
  have settled: "reconciledRow jobId devices now2 r = ?stamp r" if "r \<in> set (known_devices db1)" for r
    using rows1 [OF that]
  proof (elim disjE bexE)
    fix r0 assume "r = reconciledRow jobId devices now r0"
    then show ?thesis by (simp add: reconciledRow_twice)
  next
    fix d assume d: "d \<in> set devices" and r: "r = ?new d"
    from d have "(mac_address d, host_name d) \<in> set (deviceKeys devices)"
      by (force simp: deviceKeys_def)
    with reconciledRow_inserted [OF dist d, of jobId now2 "mac_address d \<in> whitelist" now]
    show ?thesis by (simp add: r newKnownDevice_def)
  qed
  from reconcile_rows(1) [OF wf1 ok2] none settled
  have "known_devices db2 = map ?stamp (known_devices db1)"
    by (simp cong: map_cong)
  moreover from reconcile_rows(2) [OF wf1 ok2] none have "newDevices res2 = 0" by simp
  ultimately show ?thesis using ok2 by blast
qed

text \<open>
  The devices \<open>deviceA1\<close> and \<open>deviceB\<close> at time 1000 on the inventory of
  \<open>knownC\<close>, and again at time 2000 with \<open>deviceA1\<close> whitelisted meanwhile.
\<close>

theorem second_pass_changes_last_seen_only_witness:
  "wellFormed ''job1'' [deviceA1, deviceB] exampleDb
   \<and> fst (processDevices ''job1'' [deviceA1, deviceB] {} exampleJob 1000 exampleDb)
       = Inr \<lparr>devicesFound = 2, newDevices = 2, warnings = 2\<rparr>
   \<and> (case fst (reconcile ''job1'' [deviceA1, deviceB] {''aa:bb:cc:dd:ee:ff''} exampleJob 2000
                  (snd (processDevices ''job1'' [deviceA1, deviceB] {} exampleJob 1000 exampleDb))) of
         Inl e \<Rightarrow> False
       | Inr r \<Rightarrow> newDevices r = 0)
   \<and> known_devices
         (snd (reconcile ''job1'' [deviceA1, deviceB] {''aa:bb:cc:dd:ee:ff''} exampleJob 2000
                 (snd (processDevices ''job1'' [deviceA1, deviceB] {} exampleJob 1000 exampleDb))))
       = [knownC\<lparr>kd_status := ''inactive''\<rparr>,
          (newKnownDevice ''job1'' deviceA1 False 1000)\<lparr>kd_last_seen := 2000\<rparr>,
          (newKnownDevice ''job1'' deviceB False 1000)\<lparr>kd_last_seen := 2000\<rparr>]"
proof -
  let ?db1 = "snd (processDevices ''job1'' [deviceA1, deviceB] {} exampleJob 1000 exampleDb)"
  have wf: "wellFormed ''job1'' [deviceA1, deviceB] exampleDb"
    by code_simp
  have res: "fst (processDevices ''job1'' [deviceA1, deviceB] {} exampleJob 1000 exampleDb)
               = Inr \<lparr>devicesFound = 2, newDevices = 2, warnings = 2\<rparr>"
    by code_simp
  then have first: "processDevices ''job1'' [deviceA1, deviceB] {} exampleJob 1000 exampleDb
               = (Inr \<lparr>devicesFound = 2, newDevices = 2, warnings = 2\<rparr>, ?db1)"
    by (simp add: prod_eq_iff)
  have rows1: "known_devices ?db1 =
                 [knownC\<lparr>kd_status := ''inactive''\<rparr>,
                  newKnownDevice ''job1'' deviceA1 False 1000,
                  newKnownDevice ''job1'' deviceB False 1000]"
    by code_simp
  from second_pass_changes_last_seen_only [OF wf first, of "{''aa:bb:cc:dd:ee:ff''}" exampleJob 2000]
  obtain res2 db2 where
    ok2: "reconcile ''job1'' [deviceA1, deviceB] {''aa:bb:cc:dd:ee:ff''} exampleJob 2000 ?db1 = (Inr res2, db2)"
    and n2: "newDevices res2 = 0"
    and kd2: "known_devices db2 =
       map (\<lambda>r. if kd_job_id r = ''job1''
                    \<and> (kd_mac_address r, kd_host_name r) \<in> set (deviceKeys [deviceA1, deviceB])
                 then r\<lparr>kd_last_seen := 2000\<rparr> else r)
           (known_devices ?db1)"
    by blast
  have "known_devices db2 =
          [knownC\<lparr>kd_status := ''inactive''\<rparr>,
           (newKnownDevice ''job1'' deviceA1 False 1000)\<lparr>kd_last_seen := 2000\<rparr>,
           (newKnownDevice ''job1'' deviceB False 1000)\<lparr>kd_last_seen := 2000\<rparr>]"
    unfolding kd2 rows1
    by (simp add: deviceKeys_def knownC_def newKnownDevice_def deviceA1_def deviceB_def)
  with wf res ok2 n2 show ?thesis by simp
qed

text \<open>
  C8. Under the policy \<^verbatim>\<open>'days'\<close> with \<open>N = retention_days\<close> (not negative),
  \<^verbatim>\<open>_applyRetentionPolicy\<close> deletes exactly the rows of the job that are inactive and
  whose \<^verbatim>\<open>last_seen\<close> lies before \<open>now - N\<close> days. Under any policy the rows that are
  not inactive stay as they are, what is left of the table is a selection of its rows,
  unchanged and in their order, and the device history is not touched.
\<close>

theorem retention_deletes_old_inactive_only:
  "(j_retention_policy job = ''days'' \<and> 0 \<le> j_retention_days job \<longrightarrow>
      known_devices (applyRetentionPolicy jobId job now db) =
        filter (\<lambda>r. \<not> (kd_job_id r = jobId \<and> kd_status r = ''inactive''
                         \<and> kd_last_seen r < now - j_retention_days job * 86400))
               (known_devices db))
   \<and> filter (\<lambda>r. kd_status r \<noteq> ''inactive'') (known_devices (applyRetentionPolicy jobId job now db))
       = filter (\<lambda>r. kd_status r \<noteq> ''inactive'') (known_devices db)
   \<and> (\<exists>keep. known_devices (applyRetentionPolicy jobId job now db) = filter keep (known_devices db))
   \<and> device_history (applyRetentionPolicy jobId job now db) = device_history db"
proof (intro conjI impI)
  assume "j_retention_policy job = ''days'' \<and> 0 \<le> j_retention_days job"
  then show "known_devices (applyRetentionPolicy jobId job now db) =
        filter (\<lambda>r. \<not> (kd_job_id r = jobId \<and> kd_status r = ''inactive''
                         \<and> kd_last_seen r < now - j_retention_days job * 86400))
               (known_devices db)"
    by (simp add: applyRetentionPolicy_def)
next
  show "filter (\<lambda>r. kd_status r \<noteq> ''inactive'') (known_devices (applyRetentionPolicy jobId job now db))
       = filter (\<lambda>r. kd_status r \<noteq> ''inactive'') (known_devices db)"
    by (auto simp: applyRetentionPolicy_def intro: filter_cong)
next
  have "known_devices db = filter (\<lambda>r. True) (known_devices db)" by simp
  then show "\<exists>keep. known_devices (applyRetentionPolicy jobId job now db) = filter keep (known_devices db)"
    unfolding applyRetentionPolicy_def by (auto simp del: filter_True)
next
  show "device_history (applyRetentionPolicy jobId job now db) = device_history db"
    by (simp add: applyRetentionPolicy_def)
qed

text \<open>
  With seven days and the clock at 1000000: the inactive row last seen eight days ago
  goes, the one last seen six days ago stays, and so does an active row last seen long
  ago.
\<close>

theorem retention_deletes_old_inactive_only_witness:
  "j_retention_policy exampleJob = ''days'' \<and> 0 \<le> j_retention_days exampleJob
   \<and> known_devices
       (applyRetentionPolicy ''job1'' exampleJob 1000000
          (emptyDb\<lparr>known_devices :=
             [knownC\<lparr>kd_status := ''inactive'', kd_last_seen := 1000000 - 8 * 86400\<rparr>,
              knownC\<lparr>kd_mac_address := ''cc:cc:cc:00:00:02'', kd_status := ''inactive'',
                     kd_last_seen := 1000000 - 6 * 86400\<rparr>,
              knownC\<lparr>kd_mac_address := ''cc:cc:cc:00:00:03'', kd_last_seen := 0\<rparr>]\<rparr>))
     = [knownC\<lparr>kd_mac_address := ''cc:cc:cc:00:00:02'', kd_status := ''inactive'',
               kd_last_seen := 1000000 - 6 * 86400\<rparr>,
        knownC\<lparr>kd_mac_address := ''cc:cc:cc:00:00:03'', kd_last_seen := 0\<rparr>]"
proof -
  have days: "j_retention_policy exampleJob = ''days'' \<and> 0 \<le> j_retention_days exampleJob"
    by (simp add: exampleJob_def)
  from retention_deletes_old_inactive_only [of exampleJob "''job1''" 1000000
         "emptyDb\<lparr>known_devices :=
             [knownC\<lparr>kd_status := ''inactive'', kd_last_seen := 1000000 - 8 * 86400\<rparr>,
              knownC\<lparr>kd_mac_address := ''cc:cc:cc:00:00:02'', kd_status := ''inactive'',
                     kd_last_seen := 1000000 - 6 * 86400\<rparr>,
              knownC\<lparr>kd_mac_address := ''cc:cc:cc:00:00:03'', kd_last_seen := 0\<rparr>]\<rparr>"] days
  have "known_devices
       (applyRetentionPolicy ''job1'' exampleJob 1000000
          (emptyDb\<lparr>known_devices :=
             [knownC\<lparr>kd_status := ''inactive'', kd_last_seen := 1000000 - 8 * 86400\<rparr>,
              knownC\<lparr>kd_mac_address := ''cc:cc:cc:00:00:02'', kd_status := ''inactive'',
                     kd_last_seen := 1000000 - 6 * 86400\<rparr>,
              knownC\<lparr>kd_mac_address := ''cc:cc:cc:00:00:03'', kd_last_seen := 0\<rparr>]\<rparr>))
     = filter (\<lambda>r. \<not> (kd_job_id r = ''job1'' \<and> kd_status r = ''inactive''
                         \<and> kd_last_seen r < 1000000 - j_retention_days exampleJob * 86400))
             [knownC\<lparr>kd_status := ''inactive'', kd_last_seen := 1000000 - 8 * 86400\<rparr>,
              knownC\<lparr>kd_mac_address := ''cc:cc:cc:00:00:02'', kd_status := ''inactive'',
                     kd_last_seen := 1000000 - 6 * 86400\<rparr>,
              knownC\<lparr>kd_mac_address := ''cc:cc:cc:00:00:03'', kd_last_seen := 0\<rparr>]"
    by simp
  with days show ?thesis by (simp add: exampleJob_def knownC_def)
qed

text \<open>
  C9. When the flag \<^verbatim>\<open>notifications_enabled\<close> of the job is false, \<^verbatim>\<open>_processDevices\<close>
  creates no notification, whatever the three other toggles, the batch, the whitelist
  and the outcome of the call are: the table of notifications is left as it was.
\<close>

theorem muted_job_creates_no_notification:
  assumes "\<not> truthy (j_notifications_enabled job)"
  shows "notifications (snd (processDevices jobId devices whitelist job now db)) = notifications db"
  using processLoop_muted [OF assms, where jobId=jobId and whitelist=whitelist and now=now
          and devices=devices and s="initialState jobId db"]
  by (auto simp: processDevices_def reconcile_def initialState_def notifications_markNotSeen
                 notifications_applyRetentionPolicy split: sum.splits prod.splits)

theorem muted_job_creates_no_notification_witness:
  "\<not> truthy (j_notifications_enabled (exampleJob\<lparr>j_notifications_enabled := 0\<rparr>))
   \<and> notifications (snd (processDevices ''job1'' [deviceA1, deviceB] {''11:22:33:44:55:66''}
                            (exampleJob\<lparr>j_notifications_enabled := 0\<rparr>) 1000 exampleDb)) = []"
proof -
  have muted: "\<not> truthy (j_notifications_enabled (exampleJob\<lparr>j_notifications_enabled := 0\<rparr>))"
    by (simp add: truthy_def)
  from muted_job_creates_no_notification [OF muted, of "''job1''" "[deviceA1, deviceB]"
         "{''11:22:33:44:55:66''}" 1000 exampleDb] muted
  show ?thesis by (simp add: exampleDb_def emptyDb_def)
qed

text \<open>
  C10. For a device whose key is in the map \<^verbatim>\<open>knownDevices\<close>, the loop body succeeds
  and the table \<^verbatim>\<open>known_devices\<close> changes by the one \<^verbatim>\<open>UPDATE\<close>: in the rows of the
  job with the MAC address and host name of the device, the interface name, the VLAN,
  \<^verbatim>\<open>last_seen\<close> and the status are set; every other column of every row, among them
  \<^verbatim>\<open>whitelisted\<close> and \<^verbatim>\<open>first_seen\<close>, is as before, whatever the whitelist holds.
\<close>

theorem existing_device_keeps_whitelisted_and_first_seen:
  assumes "map_of (st_knownDevices s) (deviceKey (mac_address device) (host_name device))
             = Some existingDevice"
  shows "\<exists>s'. processDevice jobId whitelist job now device s = Inr s'
           \<and> known_devices (st_db s') =
               map (\<lambda>r. if sameDevice jobId (mac_address device) (host_name device) r
                        then r\<lparr>kd_interface_name := interface_name device,
                               kd_vlan_id := vlan_id device,
                               kd_last_seen := now, kd_status := ''active''\<rparr>
                        else r)
                   (known_devices (st_db s))
           \<and> map kd_whitelisted (known_devices (st_db s')) = map kd_whitelisted (known_devices (st_db s))
           \<and> map kd_first_seen (known_devices (st_db s')) = map kd_first_seen (known_devices (st_db s))"
proof -
  from processDevice_existing [OF assms, of jobId whitelist job now]
  obtain s' where step: "processDevice jobId whitelist job now device s = Inr s'"
    and rows: "known_devices (st_db s') =
                 map (\<lambda>r. if sameDevice jobId (mac_address device) (host_name device) r
                          then touchRow device now r else r)
                     (known_devices (st_db s))"
    by blast
  have "map kd_whitelisted (known_devices (st_db s')) = map kd_whitelisted (known_devices (st_db s))"
    unfolding rows by (simp add: touchRow_def cong: map_cong)
  moreover have "map kd_first_seen (known_devices (st_db s')) = map kd_first_seen (known_devices (st_db s))"
    unfolding rows by (simp add: touchRow_def cong: map_cong)
  ultimately show ?thesis using step rows by (simp add: touchRow_def)
qed

text \<open>
  The device \<open>deviceA2\<close> against a row of its key that an earlier run has inserted as
  whitelisted, with an empty whitelist now: the flag stays 1, \<^verbatim>\<open>first_seen\<close> stays 100.
\<close>

theorem existing_device_keeps_whitelisted_and_first_seen_witness:
  "map_of (st_knownDevices
             (initialState ''job1'' (emptyDb\<lparr>known_devices := [newKnownDevice ''job1'' deviceA1 True 100]\<rparr>)))
          (deviceKey (mac_address deviceA2) (host_name deviceA2))
     = Some (newKnownDevice ''job1'' deviceA1 True 100)
   \<and> (case processDevice ''job1'' {} exampleJob 1000 deviceA2
              (initialState ''job1'' (emptyDb\<lparr>known_devices := [newKnownDevice ''job1'' deviceA1 True 100]\<rparr>)) of
        Inl e \<Rightarrow> False
      | Inr s' \<Rightarrow>
          known_devices (st_db s') =
            [\<lparr>kd_job_id = ''job1'', kd_mac_address = ''aa:bb:cc:dd:ee:ff'', kd_host_name = ''SwitchA'',
              kd_interface_name = ''Gi0/2'', kd_vlan_id = Exact 20, kd_whitelisted = 1,
              kd_first_seen = 100, kd_last_seen = 1000, kd_status = ''active''\<rparr>])"
proof -
  let ?s = "initialState ''job1'' (emptyDb\<lparr>known_devices := [newKnownDevice ''job1'' deviceA1 True 100]\<rparr>)"
  have found: "map_of (st_knownDevices ?s) (deviceKey (mac_address deviceA2) (host_name deviceA2))
                 = Some (newKnownDevice ''job1'' deviceA1 True 100)"
    by (simp add: initialState_def loadKnownDevices_def newKnownDevice_def deviceA1_def deviceA2_def
                  deviceKey_def)
  from existing_device_keeps_whitelisted_and_first_seen [OF found, of "''job1''" "{}" exampleJob 1000]
  obtain s' where "processDevice ''job1'' {} exampleJob 1000 deviceA2 ?s = Inr s'"
    and "known_devices (st_db s') =
               map (\<lambda>r. if sameDevice ''job1'' (mac_address deviceA2) (host_name deviceA2) r
                        then r\<lparr>kd_interface_name := interface_name deviceA2,
                               kd_vlan_id := vlan_id deviceA2,
                               kd_last_seen := 1000, kd_status := ''active''\<rparr>
                        else r)
                   (known_devices (st_db ?s))"
    by blast
  with found show ?thesis
    by (simp add: initialState_def sameDevice_def newKnownDevice_def deviceA1_def deviceA2_def)
qed

end
